theory Spec2Isabelle
  imports Complex_Main "HOL-Library.Log_Nat"
begin

section \<open>JavaScript values used by \<open>functions/index.js\<close>\<close>

text \<open>
  The webhook reads loosely typed fields of a JSON event. A field that may be missing
  (\<open>undefined\<close>) or \<open>null\<close> is an \<open>option\<close>; both are \<open>None\<close>, since the code only
  ever tests such a field for truthiness or compares it with a string literal by
  \<open>===\<close>. A string is falsy exactly when it is empty, a number exactly when it is zero.
  A \<open>string\<close> is the sequence of bytes of the UTF-8 encoding of the JavaScript string.
\<close>

fun truthy_str :: "string option \<Rightarrow> bool" where
  "truthy_str None = False"
| "truthy_str (Some s) = (s \<noteq> [])"

fun truthy_num :: "int option \<Rightarrow> bool" where
  "truthy_num None = False"
| "truthy_num (Some n) = (n \<noteq> 0)"

text \<open>\<open>x || d\<close> on a string field with a string default.\<close>

definition or_default :: "string option \<Rightarrow> string \<Rightarrow> string" where
  "or_default x d = (case x of None \<Rightarrow> d | Some s \<Rightarrow> if s = [] then d else s)"

section \<open>Binary64 arithmetic\<close>

text \<open>
  JavaScript numbers are IEEE 754 binary64 values, and every arithmetic operation returns
  the exact result rounded to the nearest binary64 value, a tie to the one with an even
  significand. \<open>binary64 x\<close> is that rounding for a rational \<open>x\<close> in the normal range
  (\<open>2^-1022 \<le> |x| < 2^1024\<close>, far wider than the counters and rates below): with
  \<open>2^E \<le> |x| < 2^(E+1)\<close> the result is the multiple of \<open>2^(E-52)\<close> nearest to \<open>x\<close>.
  \<open>ilog2 x\<close> is that exponent \<open>E\<close> for a positive \<open>x\<close>.
\<close>

definition round_half_even :: "rat \<Rightarrow> int" where
  "round_half_even s =
     (let f = \<lfloor>s\<rfloor>; r = s - of_int f
      in if r < 1 / 2 then f
         else if 1 / 2 < r then f + 1
         else if even f then f else f + 1)"

definition ilog2 :: "rat \<Rightarrow> int" where
  "ilog2 x = (if 1 \<le> x then bitlen \<lfloor>x\<rfloor> - 1 else - bitlen (\<lceil>1 / x\<rceil> - 1))"

definition binary64 :: "rat \<Rightarrow> rat" where
  "binary64 x =
     (if x = 0 then 0
      else let e = ilog2 \<bar>x\<bar> - 52
           in of_int (round_half_even (x / 2 powi e)) * 2 powi e)"

text \<open>
  The counters of a cohort document are integers held in binary64 numbers; \<open>f64_int n\<close>
  is the binary64 value of an integer result \<open>n\<close> (it is \<open>n\<close> itself up to \<open>2^53\<close>).
\<close>

definition f64_int :: "int \<Rightarrow> int" where
  "f64_int n = \<lfloor>binary64 (of_int n)\<rfloor>"

section \<open>Event classification\<close>

text \<open>
  \<open>classifyFromEvent(eventType, cancelReason, periodType)\<close>: a \<open>switch\<close> on the event
  type with strict equality, \<open>default: return null\<close>. The event type is \<open>event.type\<close>
  as read from the body, so it may be missing; the other two arguments were defaulted
  to \<open>""\<close> by the caller.
\<close>

definition classifyFromEvent :: "string option \<Rightarrow> string \<Rightarrow> string \<Rightarrow> string option" where
  "classifyFromEvent eventType cancelReason periodType =
     (if eventType = Some ''INITIAL_PURCHASE'' then
        (if periodType = ''TRIAL'' then Some ''Still in Trial'' else Some ''Converted'')
      else if eventType = Some ''RENEWAL'' then Some ''Converted''
      else if eventType = Some ''CANCELLATION'' then
        (if cancelReason = ''BILLING_ERROR'' \<or> cancelReason = ''CUSTOMER_SUPPORT''
         then Some ''Billing Issue'' else Some ''Cancelled'')
      else if eventType = Some ''BILLING_ISSUE'' then Some ''Billing Issue''
      else if eventType = Some ''EXPIRATION'' then Some ''Cancelled''
      else if eventType = Some ''UNCANCELLATION'' then Some ''Still in Trial''
      else None)"

section \<open>The built-in \<open>Date\<close>, read in UTC\<close>

text \<open>
  \<open>msToDateKey\<close> builds \<open>new Date(ms)\<close> and reads \<open>getUTCFullYear\<close>, \<open>getUTCMonth\<close> and
  \<open>getUTCDate\<close>. These are modelled by the time-value functions of the ECMAScript
  specification (Day, DayFromYear, YearFromTime, InLeapYear, DayWithinYear, MonthFromTime,
  DateFromTime) on an integer number of milliseconds. A time value is valid up to
  \<open>8.64e15\<close> in absolute value; beyond it the date is invalid and every getter is \<open>NaN\<close>.
\<close>

definition msPerDay :: int where
  "msPerDay = 86400000"

definition Day :: "int \<Rightarrow> int" where
  "Day t = t div msPerDay"

definition DaysInYear :: "int \<Rightarrow> int" where
  "DaysInYear y =
     (if y mod 4 \<noteq> 0 then 365
      else if y mod 100 \<noteq> 0 then 366
      else if y mod 400 \<noteq> 0 then 365
      else 366)"

definition DayFromYear :: "int \<Rightarrow> int" where
  "DayFromYear y =
     365 * (y - 1970) + (y - 1969) div 4 - (y - 1901) div 100 + (y - 1601) div 400"

text \<open>
  YearFromTime is the largest year whose first day is not after the given day. It is
  computed from an estimate that is off by at most one year.
\<close>

definition YearFromDay :: "int \<Rightarrow> int" where
  "YearFromDay d =
     (let y = 1970 + (400 * d) div 146097
      in if d < DayFromYear y then y - 1
         else if DayFromYear (y + 1) \<le> d then y + 1
         else y)"

definition YearFromTime :: "int \<Rightarrow> int" where
  "YearFromTime t = YearFromDay (Day t)"

definition InLeapYear :: "int \<Rightarrow> int" where
  "InLeapYear t = (if DaysInYear (YearFromTime t) = 366 then 1 else 0)"

definition DayWithinYear :: "int \<Rightarrow> int" where
  "DayWithinYear t = Day t - DayFromYear (YearFromTime t)"

definition MonthFromTime :: "int \<Rightarrow> int" where
  "MonthFromTime t =
     (let d = DayWithinYear t; l = InLeapYear t
      in if d < 31 then 0
         else if d < 59 + l then 1
         else if d < 90 + l then 2
         else if d < 120 + l then 3
         else if d < 151 + l then 4
         else if d < 181 + l then 5
         else if d < 212 + l then 6
         else if d < 243 + l then 7
         else if d < 273 + l then 8
         else if d < 304 + l then 9
         else if d < 334 + l then 10
         else 11)"

definition DateFromTime :: "int \<Rightarrow> int" where
  "DateFromTime t =
     (let d = DayWithinYear t; l = InLeapYear t; m = MonthFromTime t
      in if m = 0 then d + 1
         else if m = 1 then d - 30
         else if m = 2 then d - 58 - l
         else if m = 3 then d - 89 - l
         else if m = 4 then d - 119 - l
         else if m = 5 then d - 150 - l
         else if m = 6 then d - 180 - l
         else if m = 7 then d - 211 - l
         else if m = 8 then d - 242 - l
         else if m = 9 then d - 272 - l
         else if m = 10 then d - 303 - l
         else d - 333 - l)"

definition valid_time :: "int \<Rightarrow> bool" where
  "valid_time t \<longleftrightarrow> - 8640000000000000 \<le> t \<and> t \<le> 8640000000000000"

text \<open>Decimal digits of a natural number, and \<open>String(n)\<close> for an integer \<open>n\<close>.\<close>

fun digits :: "nat \<Rightarrow> string" where
  "digits n = (if n < 10 then [''0123456789'' ! n]
               else digits (n div 10) @ [''0123456789'' ! (n mod 10)])"

declare digits.simps [simp del]

definition String_of_int :: "int \<Rightarrow> string" where
  "String_of_int n = (if n < 0 then CHR ''-'' # digits (nat (- n)) else digits (nat n))"

text \<open>\<open>s.padStart(n, "0")\<close>\<close>

definition padStart0 :: "nat \<Rightarrow> string \<Rightarrow> string" where
  "padStart0 n s = replicate (n - length s) CHR ''0'' @ s"

section \<open>Cohort key derivation\<close>

text \<open>
  \<open>msToDateKey(ms)\<close>: \<open>null\<close> for a falsy argument (\<open>null\<close>, \<open>undefined\<close>, \<open>0\<close>), otherwise
  the year, the month and the day of \<open>new Date(ms)\<close> in UTC, joined by hyphens, month and
  day padded to two characters. The year is interpolated as it is.
\<close>

definition msToDateKey :: "int option \<Rightarrow> string option" where
  "msToDateKey ms =
     (case ms of
        None \<Rightarrow> None
      | Some t \<Rightarrow>
          if t = 0 then None
          else if \<not> valid_time t then Some ''NaN-NaN-NaN''
          else
            let y = String_of_int (YearFromTime t);
                m = padStart0 2 (String_of_int (MonthFromTime t + 1));
                day = padStart0 2 (String_of_int (DateFromTime t))
            in Some (y @ ''-'' @ m @ ''-'' @ day))"

text \<open>The fixed-width form \<open>YYYY-MM-DD\<close>: ten characters, digits around two hyphens.\<close>

definition is_digit :: "char \<Rightarrow> bool" where
  "is_digit c \<longleftrightarrow> c \<in> set ''0123456789''"

definition is_YYYY_MM_DD :: "string \<Rightarrow> bool" where
  "is_YYYY_MM_DD s \<longleftrightarrow>
     length s = 10 \<and> list_all is_digit (take 4 s) \<and> s ! 4 = CHR ''-'' \<and>
     list_all is_digit (take 2 (drop 5 s)) \<and> s ! 7 = CHR ''-'' \<and>
     list_all is_digit (drop 8 s)"

section \<open>Cohort records and the cohort transaction\<close>

text \<open>
  A cohort document as the webhook reads and writes it. Its five counters are integers
  (held in binary64 numbers), its three rates are binary64 numbers, given by their exact
  rational values.
\<close>

record cohort_doc =
  period :: string
  total_trials :: int
  in_trial :: int
  converted :: int
  cancelled :: int
  billing_issue :: int
  conversion_rate :: rat
  cancel_rate :: rat
  billing_rate :: rat

text \<open>
  The record synthesised when the cohort document does not exist yet. The object literal
  of the source has no rate fields; the transaction assigns all three before it writes, so
  their value here is never observed.
\<close>

definition zeroed :: "string \<Rightarrow> cohort_doc" where
  "zeroed trialStartDate =
     \<lparr>period = trialStartDate, total_trials = 0, in_trial = 0, converted = 0,
      cancelled = 0, billing_issue = 0,
      conversion_rate = 0, cancel_rate = 0, billing_rate = 0\<rparr>"

text \<open>\<open>Math.round\<close> rounds to the nearest integer, a tie towards plus infinity.\<close>

definition Math_round :: "rat \<Rightarrow> int" where
  "Math_round x = \<lfloor>x + 1 / 2\<rfloor>"

text \<open>
  \<open>Math.round((bucket / t) * 10000) / 10000\<close>, each of the two divisions and the
  multiplication rounded to binary64: \<open>rate_scaled\<close> is the integer \<open>Math.round\<close>
  returns, \<open>rate_of\<close> the rate that is stored.
\<close>

definition rate_scaled :: "int \<Rightarrow> int \<Rightarrow> int" where
  "rate_scaled bucket t = Math_round (binary64 (binary64 (of_int bucket / of_int t) * 10000))"

definition rate_of :: "int \<Rightarrow> int \<Rightarrow> rat" where
  "rate_of bucket t = binary64 (of_int (rate_scaled bucket t) / 10000)"

text \<open>Compute rates; \<open>t = data.total_trials || 1\<close>.\<close>

definition compute_rates :: "cohort_doc \<Rightarrow> cohort_doc" where
  "compute_rates data =
     (let t = (if total_trials data = 0 then 1 else total_trials data)
      in data\<lparr>conversion_rate := rate_of (converted data) t,
              cancel_rate := rate_of (cancelled data) t,
              billing_rate := rate_of (billing_issue data) t\<rparr>)"

subsection \<open>The transaction as the code computes it\<close>

text \<open>
  The body of the \<open>runTransaction\<close> callback, on the data read (or synthesised), in
  its four steps, every sum and difference rounded to binary64. \<open>eventType\<close>,
  \<open>prevStatus\<close> and the new status are the variables the callback closes over.
\<close>

text \<open>If this is a brand new user (INITIAL_PURCHASE), increment total.\<close>

definition increment_total_f64 :: "string option \<Rightarrow> string option \<Rightarrow> cohort_doc \<Rightarrow> cohort_doc" where
  "increment_total_f64 eventType prevStatus data =
     (if eventType = Some ''INITIAL_PURCHASE'' \<and> \<not> truthy_str prevStatus
      then data\<lparr>total_trials := f64_int (total_trials data + 1)\<rparr> else data)"

text \<open>Decrement previous status bucket.\<close>

definition decrement_previous_f64 :: "string option \<Rightarrow> cohort_doc \<Rightarrow> cohort_doc" where
  "decrement_previous_f64 prevStatus data =
     (if prevStatus = Some ''Still in Trial''
        then data\<lparr>in_trial := max 0 (f64_int (in_trial data - 1))\<rparr>
      else if prevStatus = Some ''Converted''
        then data\<lparr>converted := max 0 (f64_int (converted data - 1))\<rparr>
      else if prevStatus = Some ''Cancelled''
        then data\<lparr>cancelled := max 0 (f64_int (cancelled data - 1))\<rparr>
      else if prevStatus = Some ''Billing Issue''
        then data\<lparr>billing_issue := max 0 (f64_int (billing_issue data - 1))\<rparr>
      else data)"

text \<open>Increment new status bucket.\<close>

definition increment_new_f64 :: "string \<Rightarrow> cohort_doc \<Rightarrow> cohort_doc" where
  "increment_new_f64 newStatus data =
     (if newStatus = ''Still in Trial''
        then data\<lparr>in_trial := f64_int (in_trial data + 1)\<rparr>
      else if newStatus = ''Converted''
        then data\<lparr>converted := f64_int (converted data + 1)\<rparr>
      else if newStatus = ''Cancelled''
        then data\<lparr>cancelled := f64_int (cancelled data + 1)\<rparr>
      else if newStatus = ''Billing Issue''
        then data\<lparr>billing_issue := f64_int (billing_issue data + 1)\<rparr>
      else data)"

definition cohort_update_f64 :: "string option \<Rightarrow> string option \<Rightarrow> string \<Rightarrow> cohort_doc \<Rightarrow> cohort_doc" where
  "cohort_update_f64 eventType prevStatus newStatus data =
     compute_rates (increment_new_f64 newStatus
       (decrement_previous_f64 prevStatus (increment_total_f64 eventType prevStatus data)))"

text \<open>The whole callback: read the snapshot or synthesise the zeroed record, update, write.\<close>

definition cohort_transaction ::
  "string option \<Rightarrow> string option \<Rightarrow> string \<Rightarrow> string \<Rightarrow> cohort_doc option \<Rightarrow> cohort_doc" where
  "cohort_transaction eventType prevStatus newStatus trialStartDate cohortSnap =
     cohort_update_f64 eventType prevStatus newStatus
       (case cohortSnap of Some d \<Rightarrow> d | None \<Rightarrow> zeroed trialStartDate)"

text \<open>
  A sequence of transactions on one cohort document: each is given by the event type, the
  previous status and the new status of the request that runs it.
\<close>

type_synonym transition = "string option \<times> string option \<times> string"

fun run_transitions_f64 :: "cohort_doc \<Rightarrow> transition list \<Rightarrow> cohort_doc" where
  "run_transitions_f64 c [] = c"
| "run_transitions_f64 c ((eventType, prevStatus, newStatus) # ts) =
     run_transitions_f64 (cohort_update_f64 eventType prevStatus newStatus c) ts"

subsection \<open>The transaction on counters below \<open>2^53\<close>\<close>

text \<open>
  While every counter stays below \<open>2^53\<close> in absolute value no sum or difference of the
  transaction is rounded, and the four steps compute in exact integers. These are the
  four steps in that form; they give the same record as the ones above on every record
  whose counters are below \<open>2^53 - 1\<close> in absolute value, hence along every run of fewer
  than \<open>2^53\<close> transactions from the zeroed record.
\<close>

definition increment_total :: "string option \<Rightarrow> string option \<Rightarrow> cohort_doc \<Rightarrow> cohort_doc" where
  "increment_total eventType prevStatus data =
     (if eventType = Some ''INITIAL_PURCHASE'' \<and> \<not> truthy_str prevStatus
      then data\<lparr>total_trials := total_trials data + 1\<rparr> else data)"

definition decrement_previous :: "string option \<Rightarrow> cohort_doc \<Rightarrow> cohort_doc" where
  "decrement_previous prevStatus data =
     (if prevStatus = Some ''Still in Trial''
        then data\<lparr>in_trial := max 0 (in_trial data - 1)\<rparr>
      else if prevStatus = Some ''Converted''
        then data\<lparr>converted := max 0 (converted data - 1)\<rparr>
      else if prevStatus = Some ''Cancelled''
        then data\<lparr>cancelled := max 0 (cancelled data - 1)\<rparr>
      else if prevStatus = Some ''Billing Issue''
        then data\<lparr>billing_issue := max 0 (billing_issue data - 1)\<rparr>
      else data)"

definition increment_new :: "string \<Rightarrow> cohort_doc \<Rightarrow> cohort_doc" where
  "increment_new newStatus data =
     (if newStatus = ''Still in Trial''
        then data\<lparr>in_trial := in_trial data + 1\<rparr>
      else if newStatus = ''Converted''
        then data\<lparr>converted := converted data + 1\<rparr>
      else if newStatus = ''Cancelled''
        then data\<lparr>cancelled := cancelled data + 1\<rparr>
      else if newStatus = ''Billing Issue''
        then data\<lparr>billing_issue := billing_issue data + 1\<rparr>
      else data)"

definition cohort_update :: "string option \<Rightarrow> string option \<Rightarrow> string \<Rightarrow> cohort_doc \<Rightarrow> cohort_doc" where
  "cohort_update eventType prevStatus newStatus data =
     compute_rates (increment_new newStatus
       (decrement_previous prevStatus (increment_total eventType prevStatus data)))"

fun run_transitions :: "cohort_doc \<Rightarrow> transition list \<Rightarrow> cohort_doc" where
  "run_transitions c [] = c"
| "run_transitions c ((eventType, prevStatus, newStatus) # ts) =
     run_transitions (cohort_update eventType prevStatus newStatus c) ts"

definition bucket_sum :: "cohort_doc \<Rightarrow> int" where
  "bucket_sum c = in_trial c + converted c + cancelled c + billing_issue c"

definition buckets_nonneg :: "cohort_doc \<Rightarrow> bool" where
  "buckets_nonneg c \<longleftrightarrow> 0 \<le> in_trial c \<and> 0 \<le> converted c \<and> 0 \<le> cancelled c \<and> 0 \<le> billing_issue c"

text \<open>Every counter of the record lies between \<open>lo\<close> and \<open>hi\<close>.\<close>

definition counters_within :: "int \<Rightarrow> int \<Rightarrow> cohort_doc \<Rightarrow> bool" where
  "counters_within lo hi c \<longleftrightarrow>
     lo \<le> total_trials c \<and> total_trials c \<le> hi \<and> lo \<le> in_trial c \<and> in_trial c \<le> hi \<and>
     lo \<le> converted c \<and> converted c \<le> hi \<and> lo \<le> cancelled c \<and> cancelled c \<le> hi \<and>
     lo \<le> billing_issue c \<and> billing_issue c \<le> hi"

text \<open>The bucket counter a status names; no bucket for any other string.\<close>

definition bucket_of :: "string \<Rightarrow> cohort_doc \<Rightarrow> int option" where
  "bucket_of s c =
     (if s = ''Still in Trial'' then Some (in_trial c)
      else if s = ''Converted'' then Some (converted c)
      else if s = ''Cancelled'' then Some (cancelled c)
      else if s = ''Billing Issue'' then Some (billing_issue c)
      else None)"

text \<open>
  A transition is \<^emph>\<open>accounted\<close> in a record when it is a new trial (INITIAL_PURCHASE with
  no previous status), or when the previous status names a bucket that holds at least one
  user. A run is accounted when each of its transitions is, in the record it meets.
\<close>

definition accounted :: "cohort_doc \<Rightarrow> transition \<Rightarrow> bool" where
  "accounted c t =
     (case t of (eventType, prevStatus, newStatus) \<Rightarrow>
        (eventType = Some ''INITIAL_PURCHASE'' \<and> \<not> truthy_str prevStatus) \<or>
        (case prevStatus of None \<Rightarrow> False
         | Some p \<Rightarrow> (case bucket_of p c of None \<Rightarrow> False | Some n \<Rightarrow> 1 \<le> n)))"

fun accounted_run :: "cohort_doc \<Rightarrow> transition list \<Rightarrow> bool" where
  "accounted_run c [] = True"
| "accounted_run c (t # ts) =
     (accounted c t \<and> accounted_run (run_transitions c [t]) ts)"

section \<open>App resolution\<close>

text \<open>
  The static table \<open>APP_SLUGS\<close>, in the order of its keys. It is a plain object, so the
  lookup \<open>APP_SLUGS[appSlugHint]\<close> also finds the properties every object inherits from
  \<open>Object.prototype\<close>, all of them truthy.
\<close>

definition APP_SLUGS :: "(string \<times> string list) list" where
  "APP_SLUGS =
     [(''christian-daily-task'',
        [''com.nicholasseither.christiandailytask'', ''cdt'', ''christian_daily_task'',
         ''christian-daily-task'']),
      (''girlwalk'', [''com.tangentapps.girlwalk'', ''girlwalk'', ''girl_walk'']),
      (''girltalk'', [''com.tangentapps.girltalk'', ''girltalk'', ''girl_talk''])]"

definition Object_prototype_keys :: "string list" where
  "Object_prototype_keys =
     [''constructor'', ''__defineGetter__'', ''__defineSetter__'', ''hasOwnProperty'',
      ''__lookupGetter__'', ''__lookupSetter__'', ''isPrototypeOf'', ''propertyIsEnumerable'',
      ''toString'', ''valueOf'', ''__proto__'', ''toLocaleString'']"

text \<open>
  \<open>toLowerCase\<close> on the UTF-8 bytes of a string. The characters whose lower case contains
  an ASCII letter are the letters A to Z, U+212A (KELVIN SIGN, bytes E2 84 AA, lowered to
  \<open>k\<close>) and U+0130 (bytes C4 B0, lowered to \<open>i\<close> followed by U+0307, bytes CC 87). Every
  other character is lowered to a character outside ASCII and is left as it is here; that
  changes no ASCII byte and no adjacency of ASCII bytes, so \<open>includes\<close> with the ASCII
  identifiers of \<open>APP_SLUGS\<close> is not affected.
\<close>

definition lower_char :: "char \<Rightarrow> char" where
  "lower_char c =
     (case map_of (zip ''ABCDEFGHIJKLMNOPQRSTUVWXYZ'' ''abcdefghijklmnopqrstuvwxyz'') c of
        None \<Rightarrow> c | Some l \<Rightarrow> l)"

fun toLowerCase :: "string \<Rightarrow> string" where
  "toLowerCase (a # b # c # s) =
     (if a = CHR 0xE2 \<and> b = CHR 0x84 \<and> c = CHR 0xAA then CHR ''k'' # toLowerCase s
      else if a = CHR 0xC4 \<and> b = CHR 0xB0
        then CHR ''i'' # CHR 0xCC # CHR 0x87 # toLowerCase (c # s)
      else lower_char a # toLowerCase (b # c # s))"
| "toLowerCase [a, b] =
     (if a = CHR 0xC4 \<and> b = CHR 0xB0 then [CHR ''i'', CHR 0xCC, CHR 0x87]
      else [lower_char a, lower_char b])"
| "toLowerCase [a] = [lower_char a]"
| "toLowerCase [] = []"

text \<open>\<open>s.includes(p)\<close>: \<open>p\<close> occurs in \<open>s\<close> as a contiguous substring.\<close>

fun includes_str :: "string \<Rightarrow> string \<Rightarrow> bool" where
  "includes_str [] p = (p = [])"
| "includes_str (c # cs) p = (take (length p) (c # cs) = p \<or> includes_str cs p)"

definition resolveApp :: "string \<Rightarrow> string option \<Rightarrow> string option" where
  "resolveApp productId appSlugHint =
     (let byProduct =
            map_option fst
              (find (\<lambda>(slug, prefixes). list_ex (\<lambda>p. includes_str (toLowerCase productId) p) prefixes)
                 APP_SLUGS)
      in case appSlugHint of
           None \<Rightarrow> byProduct
         | Some h \<Rightarrow>
             if h \<noteq> [] \<and> h \<in> set (map fst APP_SLUGS @ Object_prototype_keys)
             then Some h else byProduct)"

section \<open>The document store\<close>

text \<open>
  The store is the abstract key-value store of the two collections the webhook touches:
  user documents at \<open>apps/{slug}/users/{id}\<close> and cohort documents at
  \<open>apps/{slug}/cohorts/{date}\<close>, each keyed by the two variable path segments. A user
  document carries the five fields the webhook writes; any of them may be missing in a
  document that exists.

  \<open>db.doc(path)\<close> throws when the store client does not take \<open>path\<close> for the path of a
  document (a user id with a slash in it can give such a path). Which paths those are is
  the client's rule and not part of this code: \<open>doc_error db path\<close> is the message of the
  error thrown, \<open>None\<close> when the path is accepted. Reads, writes and the transaction on an
  accepted path always succeed here.
\<close>

record user_doc =
  status :: "string option"
  product :: "string option"
  trial_start_date :: "string option"
  last_event :: "string option"
  updated_at :: "nat option"

record store =
  doc_error :: "string \<Rightarrow> string option"
  users :: "string \<times> string \<rightharpoonup> user_doc"
  cohorts :: "string \<times> string \<rightharpoonup> cohort_doc"

section \<open>The webhook handler\<close>

text \<open>
  The event object (\<open>body.event || body\<close>) with the fields the handler reads, each a
  string (a number for \<open>purchased_at_ms\<close>) or missing; the request with its HTTP verb, its
  \<open>authorization\<close> header, its path and the event.
\<close>

record event =
  etype :: "string option"
  app_user_id :: "string option"
  original_app_user_id :: "string option"
  product_id :: "string option"
  period_type :: "string option"
  cancel_reason :: "string option"
  purchased_at_ms :: "int option"
  environment :: "string option"

record request =
  req_method :: string
  authorization :: "string option"
  path :: string
  body :: event

text \<open>
  A response: \<open>res.status(code).send(text)\<close> or \<open>res.status(code).json(object)\<close>, the
  object as its list of fields.
\<close>

datatype response = Send nat string | Json nat "(string \<times> string) list"

fun status_code :: "response \<Rightarrow> nat" where
  "status_code (Send c t) = c"
| "status_code (Json c fs) = c"

fun json_field :: "string \<Rightarrow> response \<Rightarrow> string option" where
  "json_field k (Send c t) = None"
| "json_field k (Json c fs) = map_of fs k"

text \<open>\<open>event.app_user_id || event.original_app_user_id || null\<close>\<close>

definition appUserId_of :: "event \<Rightarrow> string option" where
  "appUserId_of ev =
     (if truthy_str (app_user_id ev) then app_user_id ev
      else if truthy_str (original_app_user_id ev) then original_app_user_id ev
      else None)"

text \<open>\<open>event.purchased_at_ms || null\<close>\<close>

definition purchasedAtMs_of :: "event \<Rightarrow> int option" where
  "purchasedAtMs_of ev = (if truthy_num (purchased_at_ms ev) then purchased_at_ms ev else None)"

text \<open>\<open>req.path.replace(/^\//, "").split("/")[0] || null\<close>\<close>

definition pathSlug_of :: "string \<Rightarrow> string option" where
  "pathSlug_of p =
     (let q = (case p of [] \<Rightarrow> [] | c # r \<Rightarrow> if c = CHR ''/'' then r else p);
          s = takeWhile (\<lambda>c. c \<noteq> CHR ''/'') q
      in if s = [] then None else Some s)"

text \<open>
  The two writes of a classified event and the final response: the reference to the user
  document is built, the user document is read, \<open>prevStatus\<close> and the frozen
  \<open>trialStartDate\<close> are taken from it, the user document is written (merge of the five
  fields; \<open>now\<close> stands for the server timestamp), and when \<open>trialStartDate\<close> is truthy
  the reference to the cohort document of that date is built and the cohort transaction
  runs on it. An error thrown by \<open>db.doc\<close> is caught by the handler and answered 500 with
  its message; what was written before stays written.
\<close>

definition record_event ::
  "nat \<Rightarrow> string \<Rightarrow> string \<Rightarrow> string option \<Rightarrow> string \<Rightarrow> string \<Rightarrow> string option \<Rightarrow> store
     \<Rightarrow> response \<times> store" where
  "record_event now appSlug appUserId eventType productId newStatus trialDate db =
     (case doc_error db (''apps/'' @ appSlug @ ''/users/'' @ appUserId) of
        Some msg \<Rightarrow> (Json 500 [(''status'', ''error''), (''message'', msg)], db)
      | None \<Rightarrow>
         (let userSnap = users db (appSlug, appUserId);
              prevStatus = (case userSnap of None \<Rightarrow> None | Some u \<Rightarrow> status u);
              trialStartDate =
                (case userSnap of
                   None \<Rightarrow> trialDate
                 | Some u \<Rightarrow>
                     if truthy_str (trial_start_date u) then trial_start_date u else trialDate);
              db1 = db\<lparr>users := (users db)((appSlug, appUserId) \<mapsto>
                      \<lparr>status = Some newStatus, product = Some productId,
                       trial_start_date = trialStartDate, last_event = eventType,
                       updated_at = Some now\<rparr>)\<rparr>;
              ok = Json 200 [(''status'', ''ok''), (''app'', appSlug),
                             (''classification'', newStatus)]
          in case trialStartDate of
               None \<Rightarrow> (ok, db1)
             | Some d \<Rightarrow>
                 if d = [] then (ok, db1)
                 else (case doc_error db (''apps/'' @ appSlug @ ''/cohorts/'' @ d) of
                         Some msg \<Rightarrow> (Json 500 [(''status'', ''error''), (''message'', msg)], db1)
                       | None \<Rightarrow>
                           (ok, db1\<lparr>cohorts := (cohorts db1)((appSlug, d) \<mapsto>
                                  cohort_transaction eventType prevStatus newStatus d
                                    (cohorts db1 (appSlug, d)))\<rparr>))))"

text \<open>
  The body of the \<open>try\<close> block: field extraction, the sandbox skip, the user id check,
  app resolution and classification, then the writes. The \<open>catch\<close> branch (500) is
  taken when \<open>db.doc\<close> throws (see \<open>record_event\<close>); the access to a body that was decoded
  and the operations of a store that answers do not throw.
\<close>

definition handle_event :: "nat \<Rightarrow> string \<Rightarrow> event \<Rightarrow> store \<Rightarrow> response \<times> store" where
  "handle_event now reqPath ev db =
     (let eventType = etype ev;
          appUserId = appUserId_of ev;
          productId = or_default (product_id ev) [];
          periodType = or_default (period_type ev) [];
          cancelReason = or_default (cancel_reason ev) [];
          purchasedAtMs = purchasedAtMs_of ev;
          env = or_default (environment ev) ''PRODUCTION''
      in if env = ''SANDBOX''
         then (Json 200 [(''status'', ''skipped''), (''reason'', ''sandbox'')], db)
         else case appUserId of
           None \<Rightarrow> (Json 400 [(''status'', ''error''), (''reason'', ''missing app_user_id'')], db)
         | Some uid \<Rightarrow>
            (case resolveApp productId (pathSlug_of reqPath) of
               None \<Rightarrow> (Json 200 [(''status'', ''skipped''), (''reason'', ''unknown_app'')], db)
             | Some appSlug \<Rightarrow>
                (case classifyFromEvent eventType cancelReason periodType of
                   None \<Rightarrow>
                     (Json 200 [(''status'', ''skipped''), (''reason'', ''unhandled_event_type'')], db)
                 | Some newStatus \<Rightarrow>
                     record_event now appSlug uid eventType productId newStatus
                       (msToDateKey purchasedAtMs) db)))"

text \<open>
  The bearer check: passed when no secret is configured, or when the header is exactly
  \<open>Bearer \<close> followed by the secret.
\<close>

definition authorized :: "string \<Rightarrow> request \<Rightarrow> bool" where
  "authorized secret req \<longleftrightarrow>
     secret = [] \<or> or_default (authorization req) [] = ''Bearer '' @ secret"

text \<open>
  \<open>exports.webhook\<close>, for a configured \<open>WEBHOOK_SECRET\<close> (empty when not configured):
  the response and the store after the request.
\<close>

definition webhook :: "string \<Rightarrow> nat \<Rightarrow> request \<Rightarrow> store \<Rightarrow> response \<times> store" where
  "webhook secret now req db =
     (if req_method req \<noteq> ''POST'' then (Send 405 ''Method not allowed'', db)
      else if \<not> authorized secret req then (Send 401 ''Unauthorized'', db)
      else handle_event now (path req) (body req) db)"

text \<open>A store with no document, whose client accepts every path.\<close>

definition empty_store :: store where
  "empty_store = \<lparr>doc_error = (\<lambda>p. None), users = Map.empty, cohorts = Map.empty\<rparr>"

text \<open>Rounding to four decimals, a tie upwards, as the specification words it.\<close>

definition round4_half_up :: "rat \<Rightarrow> rat" where
  "round4_half_up x = of_int \<lfloor>x * 10000 + 1 / 2\<rfloor> / 10000"

section \<open>Properties of the classifier\<close>

text \<open>
  Claim C7. For every event type, cancel reason and period type the classifier returns:
  Still in Trial for INITIAL_PURCHASE with period type TRIAL and Converted for
  INITIAL_PURCHASE with any other period type; Converted for RENEWAL; Billing Issue for
  CANCELLATION with cancel reason BILLING_ERROR or CUSTOMER_SUPPORT and Cancelled for
  CANCELLATION with any other cancel reason (the empty one included); Billing Issue for
  BILLING_ISSUE; Cancelled for EXPIRATION; Still in Trial for UNCANCELLATION; and null
  for every other event type (a missing one included).
\<close>

theorem classifyFromEvent_table:
  "classifyFromEvent (Some ''INITIAL_PURCHASE'') cr ''TRIAL'' = Some ''Still in Trial'' \<and>
   (pt \<noteq> ''TRIAL'' \<longrightarrow> classifyFromEvent (Some ''INITIAL_PURCHASE'') cr pt = Some ''Converted'') \<and>
   classifyFromEvent (Some ''RENEWAL'') cr pt = Some ''Converted'' \<and>
   classifyFromEvent (Some ''CANCELLATION'') ''BILLING_ERROR'' pt = Some ''Billing Issue'' \<and>
   classifyFromEvent (Some ''CANCELLATION'') ''CUSTOMER_SUPPORT'' pt = Some ''Billing Issue'' \<and>
   (cr \<noteq> ''BILLING_ERROR'' \<and> cr \<noteq> ''CUSTOMER_SUPPORT'' \<longrightarrow>
      classifyFromEvent (Some ''CANCELLATION'') cr pt = Some ''Cancelled'') \<and>
   classifyFromEvent (Some ''CANCELLATION'') [] pt = Some ''Cancelled'' \<and>
   classifyFromEvent (Some ''BILLING_ISSUE'') cr pt = Some ''Billing Issue'' \<and>
   classifyFromEvent (Some ''EXPIRATION'') cr pt = Some ''Cancelled'' \<and>
   classifyFromEvent (Some ''UNCANCELLATION'') cr pt = Some ''Still in Trial'' \<and>
   (et \<notin> {Some ''INITIAL_PURCHASE'', Some ''RENEWAL'', Some ''CANCELLATION'',
            Some ''BILLING_ISSUE'', Some ''EXPIRATION'', Some ''UNCANCELLATION''} \<longrightarrow>
      classifyFromEvent et cr pt = None)"
  by (simp add: classifyFromEvent_def)

theorem classifyFromEvent_table_witness:
  "''NORMAL'' \<noteq> ''TRIAL'' \<and>
   classifyFromEvent (Some ''INITIAL_PURCHASE'') ''UNSUBSCRIBE'' ''NORMAL'' = Some ''Converted'' \<and>
   ''UNSUBSCRIBE'' \<noteq> ''BILLING_ERROR'' \<and> ''UNSUBSCRIBE'' \<noteq> ''CUSTOMER_SUPPORT'' \<and>
   classifyFromEvent (Some ''CANCELLATION'') ''UNSUBSCRIBE'' ''NORMAL'' = Some ''Cancelled'' \<and>
   Some ''TRANSFER'' \<notin> {Some ''INITIAL_PURCHASE'', Some ''RENEWAL'', Some ''CANCELLATION'',
            Some ''BILLING_ISSUE'', Some ''EXPIRATION'', Some ''UNCANCELLATION''} \<and>
   classifyFromEvent (Some ''TRANSFER'') ''UNSUBSCRIBE'' ''NORMAL'' = None"
  using classifyFromEvent_table [of "''UNSUBSCRIBE''" "''NORMAL''" "Some ''TRANSFER''"]
  by simp

section \<open>Properties of binary64 rounding\<close>

lemma powi_pos: "0 < (2::rat) powi n"
  by (simp add: power_int_def)

lemma powi_mono: "a \<le> b \<Longrightarrow> (2::rat) powi a \<le> 2 powi b"
  by (rule power_int_increasing) simp_all

lemma powi_strict_mono: "a < b \<Longrightarrow> (2::rat) powi a < 2 powi b"
  by (rule power_int_strict_increasing) simp_all

lemma ilog2_bounds:
  assumes "0 < x"
  shows "2 powi ilog2 x \<le> x \<and> x < 2 powi (ilog2 x + 1)"
proof (cases "1 \<le> x")
  case True
  define m where "m = \<lfloor>x\<rfloor>"
  have m: "0 < m" "of_int m \<le> x" "x < of_int m + 1"
    using True by (simp_all add: m_def) linarith+
  define n where "n = nat (bitlen m - 1)"
  have b: "2 ^ n \<le> m" "m < 2 ^ nat (bitlen m)"
    using bitlen_bounds [OF m(1)] by (simp_all add: n_def)
  have "1 \<le> bitlen m" using m(1) by (simp add: bitlen_alt_def)
  then have n: "int n = bitlen m - 1" "nat (bitlen m) = Suc n" by (simp_all add: n_def)
  have i: "ilog2 x = int n" using True by (simp add: ilog2_def m_def [symmetric] n)
  have "(2::rat) ^ n \<le> of_int m"
    using b(1) by (metis of_int_le_iff of_int_numeral of_int_power)
  with m(2) have lo: "(2::rat) ^ n \<le> x" by linarith
  have "m + 1 \<le> 2 ^ Suc n" using b(2) n(2) by simp
  then have "(of_int (m + 1) :: rat) \<le> 2 ^ Suc n"
    by (metis of_int_le_iff of_int_numeral of_int_power)
  with m(3) have hi: "x < 2 ^ Suc n" by simp
  from lo hi show ?thesis
    unfolding i by (simp add: power_int_def nat_add_distrib)
next
  case False
  define z where "z = 1 / x"
  have z: "1 < z" using False assms by (simp add: z_def)
  define w where "w = \<lceil>z\<rceil> - 1"
  have w: "0 < w" "of_int w < z" "z \<le> of_int w + 1"
    using z by (simp_all add: w_def) linarith+
  define k where "k = nat (bitlen w)"
  have "1 \<le> bitlen w" using w(1) by (simp add: bitlen_alt_def)
  then have k: "int k = bitlen w" "nat (bitlen w - 1) = k - 1" "0 < k" by (simp_all add: k_def)
  have b: "2 ^ (k - 1) \<le> w" "w < 2 ^ k"
    using bitlen_bounds [OF w(1)] by (simp_all add: k k_def [symmetric])
  have i: "ilog2 x = - int k" using False by (simp add: ilog2_def z_def [symmetric] w_def [symmetric] k)
  have "w + 1 \<le> 2 ^ k" using b(2) by simp
  then have "(of_int (w + 1) :: rat) \<le> 2 ^ k"
    by (metis of_int_le_iff of_int_numeral of_int_power)
  with w(3) have zk: "z \<le> 2 ^ k" by simp
  have "(2::rat) ^ (k - 1) \<le> of_int w"
    using b(1) by (metis of_int_le_iff of_int_numeral of_int_power)
  with w(2) have zk1: "2 ^ (k - 1) < z" by linarith
  have x: "x = 1 / z" using assms by (simp add: z_def)
  have lo: "1 / 2 ^ k \<le> x"
    unfolding x using zk z by (simp add: frac_le)
  have hi: "x < 1 / 2 ^ (k - 1)"
    unfolding x using zk1 by (simp add: frac_less2)
  have p1: "(2::rat) powi (- int k) = 1 / 2 ^ k"
    by (simp add: power_int_minus field_simps)
  have e: "- int k + 1 = - int (k - 1)" using k(3) by simp
  have p2: "(2::rat) powi (- int k + 1) = 1 / 2 ^ (k - 1)"
    unfolding e by (simp add: power_int_minus field_simps)
  from lo hi show ?thesis
    unfolding i p1 p2 by simp
qed

lemma ilog2_unique:
  assumes "0 < x" and "2 powi n \<le> x" and "x < 2 powi (n + 1)"
  shows "ilog2 x = n"
proof -
  from ilog2_bounds [OF assms(1)] have b: "2 powi ilog2 x \<le> x" "x < 2 powi (ilog2 x + 1)"
    by simp_all
  have "\<not> ilog2 x + 1 \<le> n"
  proof
    assume "ilog2 x + 1 \<le> n"
    then have "(2::rat) powi (ilog2 x + 1) \<le> 2 powi n" by (rule powi_mono)
    with b(2) assms(2) show False by linarith
  qed
  moreover have "\<not> n + 1 \<le> ilog2 x"
  proof
    assume "n + 1 \<le> ilog2 x"
    then have "(2::rat) powi (n + 1) \<le> 2 powi ilog2 x" by (rule powi_mono)
    with b(1) assms(3) show False by linarith
  qed
  ultimately show ?thesis by linarith
qed

lemma round_half_even_cases:
  "round_half_even s = \<lfloor>s\<rfloor> \<or> round_half_even s = \<lfloor>s\<rfloor> + 1"
  by (simp add: round_half_even_def Let_def)

lemma round_half_even_bounds:
  "of_int (round_half_even s) \<le> s + 1 / 2 \<and> s - 1 / 2 \<le> of_int (round_half_even s)"
proof -
  have f: "of_int \<lfloor>s\<rfloor> \<le> s" "s < of_int \<lfloor>s\<rfloor> + 1" by linarith+
  define r where "r = s - of_int \<lfloor>s\<rfloor>"
  have s: "s = of_int \<lfloor>s\<rfloor> + r" by (simp add: r_def)
  have r: "0 \<le> r" "r < 1" using f by (simp_all add: r_def)
  consider "r < 1 / 2" | "1 / 2 < r" | "r = 1 / 2" by linarith
  then show ?thesis
  proof cases
    case 1
    then have "round_half_even s = \<lfloor>s\<rfloor>"
      by (simp add: round_half_even_def Let_def r_def)
    with 1 r s show ?thesis by linarith
  next
    case 2
    then have "round_half_even s = \<lfloor>s\<rfloor> + 1"
      by (simp add: round_half_even_def Let_def r_def)
    with 2 r s show ?thesis by simp
  next
    case 3
    with round_half_even_cases [of s] r s show ?thesis
      by (elim disjE) (simp, linarith)+
  qed
qed

lemma round_half_even_of_int: "round_half_even (of_int z) = z"
  by (simp add: round_half_even_def)

lemma round_half_even_ge:
  assumes "of_int R \<le> s"
  shows "R \<le> round_half_even s"
proof -
  from assms have "R \<le> \<lfloor>s\<rfloor>" by (simp add: le_floor_iff)
  with round_half_even_cases [of s] show ?thesis by linarith
qed

lemma round_half_even_le:
  assumes "s \<le> of_int R"
  shows "round_half_even s \<le> R"
proof (cases "s = of_int R")
  case True
  then show ?thesis by (simp add: round_half_even_of_int)
next
  case False
  with assms have "s < of_int R" by simp
  then have "\<lfloor>s\<rfloor> < R" by (simp add: floor_less_iff)
  with round_half_even_cases [of s] show ?thesis by linarith
qed

lemma binary64_eq:
  assumes "x \<noteq> 0" and "2 powi E \<le> \<bar>x\<bar>" and "\<bar>x\<bar> < 2 powi (E + 1)"
  shows "binary64 x = of_int (round_half_even (x / 2 powi (E - 52))) * 2 powi (E - 52)"
proof -
  from assms(1) have "0 < \<bar>x\<bar>" by simp
  then have "ilog2 \<bar>x\<bar> = E" using assms(2,3) by (rule ilog2_unique)
  with assms(1) show ?thesis by (simp add: binary64_def Let_def)
qed

lemma binary64_cases:
  assumes "x \<noteq> 0"
  obtains E where "2 powi E \<le> \<bar>x\<bar>" and "\<bar>x\<bar> < 2 powi (E + 1)"
    and "binary64 x = of_int (round_half_even (x / 2 powi (E - 52))) * 2 powi (E - 52)"
proof -
  from assms have "0 < \<bar>x\<bar>" by simp
  from ilog2_bounds [OF this] assms show ?thesis
    by (intro that [of "ilog2 \<bar>x\<bar>"]) (simp_all add: binary64_def Let_def)
qed

lemma powi_52: "(2::rat) powi (E - 52) * 2 ^ 52 = 2 powi E"
proof -
  have "(2::rat) powi (E - 52) * 2 powi 52 = 2 powi E"
    by (subst power_int_add [symmetric]) simp_all
  then show ?thesis by simp
qed

lemma binary64_error:
  assumes "x \<noteq> 0"
  shows "\<bar>binary64 x - x\<bar> \<le> \<bar>x\<bar> / 2 ^ 53"
proof -
  from assms obtain E where E: "2 powi E \<le> \<bar>x\<bar>"
    and b: "binary64 x = of_int (round_half_even (x / 2 powi (E - 52))) * 2 powi (E - 52)"
    by (rule binary64_cases)
  define p :: rat where "p = 2 powi (E - 52)"
  define s where "s = x / p"
  define m where "m = round_half_even s"
  have p: "0 < p" by (simp add: p_def powi_pos)
  have x: "x = s * p" using p by (simp add: s_def)
  have "\<bar>of_int m - s\<bar> \<le> 1 / 2"
    using round_half_even_bounds [of s] unfolding m_def abs_le_iff by linarith
  then have "\<bar>of_int m - s\<bar> * p \<le> 1 / 2 * p"
    using p by (intro mult_right_mono) simp_all
  moreover have "\<bar>of_int m * p - s * p\<bar> = \<bar>of_int m - s\<bar> * p"
    using p by (simp add: left_diff_distrib [symmetric] abs_mult)
  ultimately have d: "\<bar>binary64 x - x\<bar> \<le> p / 2"
    unfolding b p_def [symmetric] s_def [symmetric] m_def [symmetric] using x by simp
  have "p * 2 ^ 52 \<le> \<bar>x\<bar>"
    unfolding p_def powi_52 by (rule E)
  then have "p / 2 \<le> \<bar>x\<bar> / 2 ^ 53" by (simp add: field_simps)
  with d show ?thesis by linarith
qed

lemma binary64_pos:
  assumes "0 < x"
  shows "0 < binary64 x"
proof -
  from assms have "x \<noteq> 0" by simp
  then obtain E where E: "2 powi E \<le> \<bar>x\<bar>"
    and b: "binary64 x = of_int (round_half_even (x / 2 powi (E - 52))) * 2 powi (E - 52)"
    by (rule binary64_cases)
  define p :: rat where "p = 2 powi (E - 52)"
  have p: "0 < p" by (simp add: p_def powi_pos)
  have "p * 2 ^ 52 \<le> x"
    unfolding p_def powi_52 using E assms by simp
  then have "of_int (2 ^ 52) \<le> x / p" using p by (simp add: field_simps)
  then have "2 ^ 52 \<le> round_half_even (x / p)" by (rule round_half_even_ge)
  then have "0 < round_half_even (x / p)" by simp
  then show ?thesis
    unfolding b p_def [symmetric] using p by simp
qed

lemma binary64_nonneg: "0 \<le> x \<Longrightarrow> 0 \<le> binary64 x"
  using binary64_pos [of x] by (cases "x = 0") (simp_all add: binary64_def)

lemma binary64_le_int:
  assumes "0 < x" and "x \<le> of_int N" and "x < 2 ^ 53"
  shows "binary64 x \<le> of_int N"
proof -
  from assms have "x \<noteq> 0" by simp
  then obtain E where E: "2 powi E \<le> \<bar>x\<bar>"
    and b: "binary64 x = of_int (round_half_even (x / 2 powi (E - 52))) * 2 powi (E - 52)"
    by (rule binary64_cases)
  have "(2::rat) powi E < 2 powi 53" using E assms(1,3) by simp
  then have "E < 53"
    by (metis linorder_not_less powi_mono)
  define k where "k = nat (52 - E)"
  have k: "E - 52 = - int k" using \<open>E < 53\<close> by (simp add: k_def)
  have p: "(2::rat) powi (E - 52) = 1 / 2 ^ k"
    unfolding k by (simp add: power_int_minus field_simps)
  have "x / (1 / 2 ^ k) \<le> of_int (N * 2 ^ k)"
    using assms(2) by (simp add: field_simps)
  then have "round_half_even (x / (1 / 2 ^ k)) \<le> N * 2 ^ k"
    by (rule round_half_even_le)
  then have "(of_int (round_half_even (x / (1 / 2 ^ k))) :: rat) \<le> of_int (N * 2 ^ k)"
    by (simp only: of_int_le_iff)
  then show ?thesis
    unfolding b p by (simp add: field_simps)
qed

lemma binary64_int_exact:
  assumes "\<bar>n\<bar> < 2 ^ 53"
  shows "binary64 (of_int n) = of_int n"
proof (cases "n = 0")
  case True
  then show ?thesis by (simp add: binary64_def)
next
  case False
  then have "(of_int n :: rat) \<noteq> 0" by simp
  then obtain E where E: "2 powi E \<le> \<bar>of_int n :: rat\<bar>"
    and b: "binary64 (of_int n) =
      of_int (round_half_even (of_int n / 2 powi (E - 52))) * 2 powi (E - 52)"
    by (rule binary64_cases)
  have "\<bar>of_int n :: rat\<bar> < 2 ^ 53"
    using assms by (metis of_int_abs of_int_less_iff of_int_numeral of_int_power)
  with E have "(2::rat) powi E < 2 powi 53" by simp
  then have "E < 53"
    by (metis linorder_not_less powi_mono)
  define k where "k = nat (52 - E)"
  have k: "E - 52 = - int k" using \<open>E < 53\<close> by (simp add: k_def)
  have p: "(2::rat) powi (E - 52) = 1 / 2 ^ k"
    unfolding k by (simp add: power_int_minus field_simps)
  have "of_int n / (1 / 2 ^ k) = (of_int (n * 2 ^ k) :: rat)" by simp
  then show ?thesis
    unfolding b p by (simp only: round_half_even_of_int) simp
qed

lemma binary64_0: "binary64 0 = 0"
  by (simp add: binary64_def)

lemma binary64_2_53: "binary64 9007199254740992 = 9007199254740992"
proof -
  have "binary64 9007199254740992 =
      of_int (round_half_even (9007199254740992 / 2 powi (53 - 52))) * 2 powi (53 - 52)"
    by (rule binary64_eq) (simp_all add: power_int_def)
  also have "\<dots> = of_int (round_half_even (of_int 4503599627370496)) * 2"
    by simp
  finally show ?thesis by (simp only: round_half_even_of_int)
qed

lemma binary64_2_53_plus_1: "binary64 9007199254740993 = 9007199254740992"
proof -
  have "binary64 9007199254740993 =
      of_int (round_half_even (9007199254740993 / 2 powi (53 - 52))) * 2 powi (53 - 52)"
    by (rule binary64_eq) (simp_all add: power_int_def)
  moreover have "\<lfloor>(9007199254740993::rat) / 2\<rfloor> = 4503599627370496"
    by (rule floor_unique) simp_all
  then have "round_half_even (9007199254740993 / 2) = 4503599627370496"
    by (simp add: round_half_even_def Let_def)
  ultimately show ?thesis by simp
qed

lemma f64_int_exact: "\<bar>n\<bar> \<le> 9007199254740992 \<Longrightarrow> f64_int n = n"
proof -
  assume a: "\<bar>n\<bar> \<le> 9007199254740992"
  consider "\<bar>n\<bar> < 2 ^ 53" | "n = 9007199254740992" | "n = - 9007199254740992"
    using a by (simp add: abs_le_iff) linarith
  then show ?thesis
  proof cases
    case 1
    then show ?thesis by (simp add: f64_int_def binary64_int_exact)
  next
    case 2
    then show ?thesis by (simp add: f64_int_def binary64_2_53)
  next
    case 3
    have "binary64 (- 9007199254740992) =
      of_int (round_half_even (- 9007199254740992 / 2 powi (53 - 52))) * 2 powi (53 - 52)"
      by (rule binary64_eq) (simp_all add: power_int_def)
    also have "\<dots> = of_int (round_half_even (of_int (- 4503599627370496))) * 2"
      by simp
    finally have "binary64 (- 9007199254740992) = - 9007199254740992"
      by (simp only: round_half_even_of_int)
    with 3 show ?thesis by (simp add: f64_int_def)
  qed
qed

lemma f64_int_succ:
  assumes "\<bar>t\<bar> \<le> 9007199254740992"
  shows "f64_int (t + 1) = (if t < 9007199254740992 then t + 1 else t)"
proof (cases "t < 9007199254740992")
  case True
  with assms have "\<bar>t + 1\<bar> \<le> 9007199254740992" by (simp add: abs_le_iff)
  with True show ?thesis by (simp add: f64_int_exact)
next
  case False
  with assms have t: "t = 9007199254740992" by (simp add: abs_le_iff)
  show ?thesis by (simp add: t f64_int_def binary64_2_53_plus_1)
qed

lemma round_half_even_eval:
  assumes "of_int m - 1 / 2 < s" and "s < of_int m + 1 / 2"
  shows "round_half_even s = m"
proof -
  from round_half_even_bounds [of s] assms
  have "(of_int (round_half_even s) :: rat) < of_int (m + 1)"
    "(of_int (m - 1) :: rat) < of_int (round_half_even s)" by simp_all
  then have "round_half_even s < m + 1" "m - 1 < round_half_even s"
    by (simp_all only: of_int_less_iff)
  then show ?thesis by simp
qed

lemma binary64_eval:
  assumes "p = 2 powi e"
    and "2 ^ 52 * p \<le> \<bar>x\<bar>" and "\<bar>x\<bar> < 2 ^ 53 * p"
    and "(of_int m - 1 / 2) * p < x" and "x < (of_int m + 1 / 2) * p"
  shows "binary64 x = of_int m * p"
proof -
  have p: "0 < p" by (simp add: assms(1) powi_pos)
  have e: "e = (e + 52) - 52" by simp
  have a: "2 powi (e + 52) = p * 2 ^ 52"
    using powi_52 [of "e + 52"] by (simp add: assms(1))
  have b: "2 powi (e + 52 + 1) = p * 2 ^ 53"
  proof -
    have "(2::rat) powi (e + 52 + 1) = 2 powi (e + 52) * 2 powi 1"
      by (subst power_int_add) simp_all
    then show ?thesis by (simp add: a)
  qed
  have x0: "x \<noteq> 0" using assms(2) p by auto
  have 1: "2 powi (e + 52) \<le> \<bar>x\<bar>"
    unfolding a using assms(2) by (simp only: mult.commute)
  have 2: "\<bar>x\<bar> < 2 powi (e + 52 + 1)"
    unfolding b using assms(3) by (simp only: mult.commute)
  have 3: "of_int m - 1 / 2 < x / p" "x / p < of_int m + 1 / 2"
    using assms(4,5) p by (simp_all add: field_simps)
  have "binary64 x = of_int (round_half_even (x / 2 powi (e + 52 - 52))) * 2 powi (e + 52 - 52)"
    using x0 1 2 by (rule binary64_eq)
  also have "\<dots> = of_int (round_half_even (x / p)) * p"
    by (simp add: assms(1))
  also have "round_half_even (x / p) = m" using 3 by (rule round_half_even_eval)
  finally show ?thesis .
qed

lemma binary64_57_800: "binary64 (57 / 800) = 5134103575202365 / 72057594037927936"
  using binary64_eval [of "1 / 72057594037927936" "- 56" "57 / 800" 5134103575202365]
  by (simp add: power_int_minus)

lemma binary64_57_800_scaled:
  "binary64 (5134103575202365 / 72057594037927936 * 10000) = 6267216278323199 / 8796093022208"
  using binary64_eval [of "1 / 8796093022208" "- 43"
      "5134103575202365 / 72057594037927936 * 10000" 6267216278323199]
  by (simp add: power_int_minus)

lemma rate_scaled_57_800: "rate_scaled 57 800 = 712"
proof -
  have "\<lfloor>(6267216278323199 :: rat) / 8796093022208 + 1 / 2\<rfloor> = 712"
    by (rule floor_unique) simp_all
  then show ?thesis
    unfolding rate_scaled_def Math_round_def
    by (simp only: of_int_numeral binary64_57_800 binary64_57_800_scaled)
qed

lemma binary64_712: "binary64 (712 / 10000) = 5130500695500469 / 72057594037927936"
  using binary64_eval [of "1 / 72057594037927936" "- 56" "712 / 10000" 5130500695500469]
  by (simp add: power_int_minus)

lemma binary64_713: "binary64 (713 / 10000) = 2568853227452131 / 36028797018963968"
  using binary64_eval [of "1 / 72057594037927936" "- 56" "713 / 10000" 5137706454904262]
  by (simp add: power_int_minus)

lemma rate_of_57_800: "rate_of 57 800 = 5130500695500469 / 72057594037927936"
  unfolding rate_of_def rate_scaled_57_800 of_int_numeral by (rule binary64_712)

lemma binary64_numeral_exact:
  "\<bar>numeral w :: int\<bar> < 2 ^ 53 \<Longrightarrow> binary64 (numeral w) = numeral w"
  using binary64_int_exact [of "numeral w"] by simp

lemma binary64_1: "binary64 1 = 1"
  using binary64_int_exact [of 1] by simp

lemma Math_round_of_int: "Math_round (of_int n) = n"
  unfolding Math_round_def by (rule floor_unique) simp_all

lemma rate_of_small: "rate_of 0 1 = 0" "rate_of 1 1 = 1" "rate_of 2 1 = 2"
proof -
  have s: "rate_scaled 0 1 = 0" "rate_scaled 1 1 = 10000" "rate_scaled 2 1 = 20000"
    using Math_round_of_int [of 0] Math_round_of_int [of 10000] Math_round_of_int [of 20000]
    by (simp_all add: rate_scaled_def binary64_0 binary64_1 binary64_numeral_exact)
  show "rate_of 0 1 = 0" "rate_of 1 1 = 1" "rate_of 2 1 = 2"
    by (simp_all add: rate_of_def s binary64_0 binary64_1 binary64_numeral_exact)
qed

section \<open>Properties of the date model and of the cohort key\<close>

lemma div_bounds:
  fixes a :: int
  shows "4 * (a div 4) \<le> a" "a < 4 * (a div 4) + 4"
    "100 * (a div 100) \<le> a" "a < 100 * (a div 100) + 100"
    "400 * (a div 400) \<le> a" "a < 400 * (a div 400) + 400"
    "146097 * (a div 146097) \<le> a" "a < 146097 * (a div 146097) + 146097"
  by presburger+

lemma DayFromYear_linear:
  fixes y A B C :: int
  assumes "A = (y - 1969) div 4" "B = (y - 1901) div 100" "C = (y - 1601) div 400"
  shows "DayFromYear y = 365 * y - 719050 + A - B + C"
  unfolding DayFromYear_def assms by simp

lemma DayFromYear_lower: "146097 * y - 287811596 \<le> 400 * DayFromYear y"
proof -
  define A B C where "A = (y - 1969) div 4" and "B = (y - 1901) div 100" and "C = (y - 1601) div 400"
  have D: "DayFromYear y = 365 * y - 719050 + A - B + C"
    using A_def B_def C_def by (rule DayFromYear_linear)
  have "y - 1969 < 4 * A + 4" "100 * B \<le> y - 1901" "y - 1601 < 400 * C + 400"
    unfolding A_def B_def C_def by (rule div_bounds)+
  with D show ?thesis by linarith
qed

lemma DayFromYear_upper: "400 * DayFromYear y \<le> 146097 * y - 287810501"
proof -
  define A B C where "A = (y - 1969) div 4" and "B = (y - 1901) div 100" and "C = (y - 1601) div 400"
  have D: "DayFromYear y = 365 * y - 719050 + A - B + C"
    using A_def B_def C_def by (rule DayFromYear_linear)
  have "4 * A \<le> y - 1969" "y - 1901 < 100 * B + 100" "400 * C \<le> y - 1601"
    unfolding A_def B_def C_def by (rule div_bounds)+
  with D show ?thesis by linarith
qed

lemma YearFromDay_spec:
  "DayFromYear (YearFromDay d) \<le> d \<and> d < DayFromYear (YearFromDay d + 1)"
proof -
  define q where "q = (400 * d) div 146097"
  define y where "y = 1970 + q"
  have e: "146097 * q \<le> 400 * d" "400 * d < 146097 * q + 146097"
    unfolding q_def by (rule div_bounds)+
  define ym yp where "ym = y - 1" and "yp = y + 2"
  have "DayFromYear ym \<le> d"
    using e(1) DayFromYear_upper [of ym] y_def ym_def by linarith
  then have lo: "DayFromYear (y - 1) \<le> d" by (simp add: ym_def)
  have "d < DayFromYear yp"
    using e(2) DayFromYear_lower [of yp] y_def yp_def by linarith
  then have hi: "d < DayFromYear (y + 2)" by (simp add: yp_def)
  have s: "y + 1 + 1 = y + 2" "y - 1 + 1 = y" by simp_all
  show ?thesis
    unfolding YearFromDay_def q_def [symmetric] y_def [symmetric] Let_def
    using lo hi by (simp add: s)
qed

lemma div_step_gen:
  fixes a n :: int
  assumes "0 < n"
  shows "(a + 1) div n = a div n + (if (a + 1) mod n = 0 then 1 else 0)"
proof (cases "(a + 1) mod n = 0")
  case True
  then obtain k where k: "a + 1 = n * k" by (auto simp: mod_eq_0_iff_dvd)
  then have a: "a = n * (k - 1) + (n - 1)" by (simp add: algebra_simps)
  have "a div n = k - 1"
    unfolding a using assms by (subst div_mult_self4) (simp_all add: div_pos_pos_trivial)
  moreover have "(a + 1) div n = k" unfolding k using assms by simp
  ultimately show ?thesis using True by simp
next
  case False
  define r where "r = a mod n"
  have r: "0 \<le> r" "r < n" using assms by (simp_all add: r_def)
  have "r + 1 \<noteq> n"
  proof
    assume "r + 1 = n"
    then have "(a + 1) mod n = 0"
      unfolding r_def by (metis mod_add_left_eq mod_self)
    with False show False by simp
  qed
  with r have r1: "0 \<le> r + 1" "r + 1 < n" by simp_all
  have "a + 1 = n * (a div n) + (r + 1)" by (simp add: r_def)
  then have "(a + 1) div n = (n * (a div n) + (r + 1)) div n" by (rule arg_cong)
  also have "\<dots> = a div n + (r + 1) div n"
    using assms by (subst div_mult_self4) simp_all
  also have "(r + 1) div n = 0" using r1 by (simp add: div_pos_pos_trivial)
  finally show ?thesis using False by simp
qed


lemma mod_shift:
  fixes y :: int
  shows "(y - 1968) mod 4 = 0 \<longleftrightarrow> y mod 4 = 0"
    "(y - 1900) mod 100 = 0 \<longleftrightarrow> y mod 100 = 0"
    "(y - 1600) mod 400 = 0 \<longleftrightarrow> y mod 400 = 0"
proof -
  have d: "(4::int) dvd 1968" "(100::int) dvd 1900" "(400::int) dvd 1600" by simp_all
  show "(y - 1968) mod 4 = 0 \<longleftrightarrow> y mod 4 = 0"
    using dvd_diff_left_iff [OF d(1), of y] by (simp add: mod_eq_0_iff_dvd)
  show "(y - 1900) mod 100 = 0 \<longleftrightarrow> y mod 100 = 0"
    using dvd_diff_left_iff [OF d(2), of y] by (simp add: mod_eq_0_iff_dvd)
  show "(y - 1600) mod 400 = 0 \<longleftrightarrow> y mod 400 = 0"
    using dvd_diff_left_iff [OF d(3), of y] by (simp add: mod_eq_0_iff_dvd)
qed

lemma mod_400_100_4:
  fixes y :: int
  shows "y mod 400 = 0 \<Longrightarrow> y mod 100 = 0" "y mod 100 = 0 \<Longrightarrow> y mod 4 = 0"
proof -
  assume "y mod 400 = 0"
  then have "400 dvd y" by (simp add: mod_eq_0_iff_dvd)
  with dvd_trans [of 100 400 y] have "100 dvd y" by simp
  then show "y mod 100 = 0" by (simp add: mod_eq_0_iff_dvd)
next
  assume "y mod 100 = 0"
  then have "100 dvd y" by (simp add: mod_eq_0_iff_dvd)
  with dvd_trans [of 4 100 y] have "4 dvd y" by simp
  then show "y mod 4 = 0" by (simp add: mod_eq_0_iff_dvd)
qed

lemma DayFromYear_Suc: "DayFromYear (y + 1) = DayFromYear y + DaysInYear y"
proof -
  have a: "y + 1 - 1969 = (y - 1969) + 1" "y + 1 - 1901 = (y - 1901) + 1"
    "y + 1 - 1601 = (y - 1601) + 1" by simp_all
  have b: "y - 1969 + 1 = y - 1968" "y - 1901 + 1 = y - 1900" "y - 1601 + 1 = y - 1600"
    by simp_all
  have s4: "(y - 1969 + 1) div 4 = (y - 1969) div 4 + (if y mod 4 = 0 then 1 else 0)"
    using div_step_gen [of 4 "y - 1969"] by (simp add: b mod_shift)
  have s100: "(y - 1901 + 1) div 100 = (y - 1901) div 100 + (if y mod 100 = 0 then 1 else 0)"
    using div_step_gen [of 100 "y - 1901"] by (simp add: b mod_shift)
  have s400: "(y - 1601 + 1) div 400 = (y - 1601) div 400 + (if y mod 400 = 0 then 1 else 0)"
    using div_step_gen [of 400 "y - 1601"] by (simp add: b mod_shift)
  show ?thesis
    unfolding DayFromYear_def a s4 s100 s400 DaysInYear_def
    using mod_400_100_4 [of y] by auto
qed

lemma DayWithinYear_bounds:
  "0 \<le> DayWithinYear t \<and> DayWithinYear t < 365 + InLeapYear t"
proof -
  have l: "365 + InLeapYear t = DaysInYear (YearFromTime t)"
    by (simp add: InLeapYear_def DaysInYear_def)
  show ?thesis
    unfolding l DayWithinYear_def YearFromTime_def
    using YearFromDay_spec [of "Day t"] DayFromYear_Suc [of "YearFromDay (Day t)"]
    by linarith
qed

lemma InLeapYear_cases: "InLeapYear t = 0 \<or> InLeapYear t = 1"
  by (simp add: InLeapYear_def)

lemma MonthFromTime_bounds: "0 \<le> MonthFromTime t \<and> MonthFromTime t \<le> 11"
  by (simp add: MonthFromTime_def Let_def)

lemma DateFromTime_bounds: "1 \<le> DateFromTime t \<and> DateFromTime t \<le> 31"
proof -
  define d l where "d = DayWithinYear t" and "l = InLeapYear t"
  have b: "0 \<le> d" "d < 365 + l" "l = 0 \<or> l = 1"
    using DayWithinYear_bounds [of t] InLeapYear_cases [of t] by (simp_all add: d_def l_def)
  show ?thesis
    unfolding DateFromTime_def MonthFromTime_def d_def [symmetric] l_def [symmetric] Let_def
    using b by auto
qed

lemma DaysInYear_pos: "0 < DaysInYear y"
  by (simp add: DaysInYear_def)

lemma DayFromYear_mono: "a \<le> b \<Longrightarrow> DayFromYear a \<le> DayFromYear b"
proof (induction b rule: int_ge_induct)
  case base
  show ?case by simp
next
  case (step i)
  have "DayFromYear i \<le> DayFromYear (i + 1)"
    using DaysInYear_pos [of i] by (simp add: DayFromYear_Suc)
  with step.IH show ?case by linarith
qed

lemma YearFromDay_ge:
  assumes "DayFromYear y0 \<le> d"
  shows "y0 \<le> YearFromDay d"
proof (rule ccontr)
  assume "\<not> y0 \<le> YearFromDay d"
  then have "YearFromDay d + 1 \<le> y0" by simp
  then have "DayFromYear (YearFromDay d + 1) \<le> DayFromYear y0"
    by (rule DayFromYear_mono)
  with assms YearFromDay_spec [of d] show False by linarith
qed

lemma YearFromDay_less:
  assumes "d < DayFromYear y1"
  shows "YearFromDay d < y1"
proof (rule ccontr)
  assume "\<not> YearFromDay d < y1"
  then have "y1 \<le> YearFromDay d" by simp
  then have "DayFromYear y1 \<le> DayFromYear (YearFromDay d)"
    by (rule DayFromYear_mono)
  with assms YearFromDay_spec [of d] show False by linarith
qed

lemma YearFromTime_four_digits:
  assumes "- 30610224000000 \<le> t" and "t \<le> 253402300799999"
  shows "1000 \<le> YearFromTime t \<and> YearFromTime t \<le> 9999"
proof -
  have "(- 30610224000000) div msPerDay \<le> Day t"
    unfolding Day_def using assms(1) by (rule zdiv_mono1) (simp add: msPerDay_def)
  then have lo: "DayFromYear 1000 \<le> Day t"
    by (simp add: msPerDay_def DayFromYear_def)
  have "Day t \<le> 253402300799999 div msPerDay"
    unfolding Day_def using assms(2) by (rule zdiv_mono1) (simp add: msPerDay_def)
  then have hi: "Day t < DayFromYear 10000"
    by (simp add: msPerDay_def DayFromYear_def)
  from YearFromDay_ge [OF lo] YearFromDay_less [OF hi] show ?thesis
    by (simp add: YearFromTime_def)
qed

lemma digit_char: "n < 10 \<Longrightarrow> is_digit (''0123456789'' ! n)"
  unfolding is_digit_def by (rule nth_mem) simp

lemma digits_all_digit: "list_all is_digit (digits n)"
proof (induction n rule: digits.induct)
  case (1 n)
  show ?case
  proof (cases "n < 10")
    case True
    then show ?thesis by (subst digits.simps) (simp add: digit_char)
  next
    case False
    with "1.IH" show ?thesis by (subst digits.simps) (simp add: digit_char)
  qed
qed

lemma length_digits_1: "n < 10 \<Longrightarrow> length (digits n) = 1"
  by (subst digits.simps) simp

lemma length_digits_2: "10 \<le> n \<Longrightarrow> n < 100 \<Longrightarrow> length (digits n) = 2"
  by (subst digits.simps) (simp add: length_digits_1 less_mult_imp_div_less)

lemma length_digits_3: "100 \<le> n \<Longrightarrow> n < 1000 \<Longrightarrow> length (digits n) = 3"
proof -
  assume a: "100 \<le> n" "n < 1000"
  then have "10 \<le> n div 10" "n div 10 < 100" by arith+
  then have "length (digits (n div 10)) = 2" by (rule length_digits_2)
  with a show ?thesis by (subst digits.simps) simp
qed

lemma length_digits_4: "1000 \<le> n \<Longrightarrow> n < 10000 \<Longrightarrow> length (digits n) = 4"
proof -
  assume a: "1000 \<le> n" "n < 10000"
  then have "100 \<le> n div 10" "n div 10 < 1000" by arith+
  then have "length (digits (n div 10)) = 3" by (rule length_digits_3)
  with a show ?thesis by (subst digits.simps) simp
qed

lemma pad2_digits:
  assumes "1 \<le> k" and "k \<le> 31"
  shows "length (padStart0 2 (String_of_int k)) = 2 \<and>
         list_all is_digit (padStart0 2 (String_of_int k))"
proof (cases "k < 10")
  case True
  with assms have "length (digits (nat k)) = 1" by (intro length_digits_1) simp
  with assms show ?thesis
    by (simp add: padStart0_def String_of_int_def digits_all_digit is_digit_def)
next
  case False
  with assms have "length (digits (nat k)) = 2" by (intro length_digits_2) simp_all
  with assms show ?thesis
    by (simp add: padStart0_def String_of_int_def digits_all_digit)
qed

lemma is_YYYY_MM_DD_I:
  assumes "length y = 4" "length m = 2" "length d = 2"
    and "list_all is_digit y" "list_all is_digit m" "list_all is_digit d"
  shows "is_YYYY_MM_DD (y @ ''-'' @ m @ ''-'' @ d)"
proof -
  from assms(1) obtain y1 y2 y3 y4 where y: "y = [y1, y2, y3, y4]"
    by (auto simp: length_Suc_conv numeral_eq_Suc)
  from assms(2) obtain m1 m2 where m: "m = [m1, m2]"
    by (auto simp: length_Suc_conv numeral_eq_Suc)
  from assms(3) obtain d1 d2 where d: "d = [d1, d2]"
    by (auto simp: length_Suc_conv numeral_eq_Suc)
  from assms(4-6) show ?thesis
    unfolding y m d is_YYYY_MM_DD_def by simp
qed

lemma msToDateKey_form:
  assumes "t \<noteq> 0" and "- 30610224000000 \<le> t" and "t \<le> 253402300799999"
  shows "\<exists>s. msToDateKey (Some t) = Some s \<and> is_YYYY_MM_DD s"
proof -
  have v: "valid_time t" using assms by (simp add: valid_time_def)
  have y: "1000 \<le> YearFromTime t" "YearFromTime t \<le> 9999"
    using YearFromTime_four_digits [OF assms(2,3)] by simp_all
  then have "length (digits (nat (YearFromTime t))) = 4"
    by (intro length_digits_4) simp_all
  with y have ly: "length (String_of_int (YearFromTime t)) = 4"
    "list_all is_digit (String_of_int (YearFromTime t))"
    by (simp_all add: String_of_int_def digits_all_digit)
  have "1 \<le> MonthFromTime t + 1" "MonthFromTime t + 1 \<le> 31"
    using MonthFromTime_bounds [of t] by simp_all
  then have lm: "length (padStart0 2 (String_of_int (MonthFromTime t + 1))) = 2"
    "list_all is_digit (padStart0 2 (String_of_int (MonthFromTime t + 1)))"
    using pad2_digits by blast+
  have "1 \<le> DateFromTime t" "DateFromTime t \<le> 31"
    using DateFromTime_bounds [of t] by simp_all
  then have ld: "length (padStart0 2 (String_of_int (DateFromTime t))) = 2"
    "list_all is_digit (padStart0 2 (String_of_int (DateFromTime t)))"
    using pad2_digits by blast+
  have "is_YYYY_MM_DD (String_of_int (YearFromTime t) @ ''-'' @
      padStart0 2 (String_of_int (MonthFromTime t + 1)) @ ''-'' @
      padStart0 2 (String_of_int (DateFromTime t)))"
    using ly(1) lm(1) ld(1) ly(2) lm(2) ld(2) by (rule is_YYYY_MM_DD_I)
  with assms(1) v show ?thesis
    by (simp add: msToDateKey_def Let_def)
qed

lemmas date_eval =
  YearFromTime_def MonthFromTime_def DateFromTime_def DayWithinYear_def InLeapYear_def
  DaysInYear_def YearFromDay_def DayFromYear_def Day_def msPerDay_def

text \<open>
  Claim C9, as stated, fails for timestamps outside the years 1000 to 9999: the year is
  interpolated without padding, so the first millisecond of the year 10000 gives an
  eleven-character key.
\<close>

theorem msToDateKey_year_10000_counterexample:
  "msToDateKey (Some 253402300800000) = Some ''10000-01-01'' \<and>
   \<not> is_YYYY_MM_DD ''10000-01-01''"
proof -
  have "YearFromTime 253402300800000 = 10000" "MonthFromTime 253402300800000 = 0"
    "DateFromTime 253402300800000 = 1"
    by (simp_all add: date_eval Let_def)
  then show ?thesis
    by (simp add: msToDateKey_def valid_time_def String_of_int_def padStart0_def
        digits.simps is_YYYY_MM_DD_def Let_def)
qed

text \<open>
  Claim C9, amended. Cohort key derivation maps 1700000000000 to \<open>2023-11-14\<close> and maps
  0 and null to null. For every other input between -30610224000000 and 253402300799999
  (the UTC years 1000 to 9999) the output is the ten-character string \<open>YYYY-MM-DD\<close> made
  of the UTC year, the month (1 to 12) and the day of the month (1 to 31), month and day
  zero-padded to two digits.
\<close>

theorem msToDateKey_key:
  "msToDateKey (Some 1700000000000) = Some ''2023-11-14'' \<and>
   msToDateKey (Some 0) = None \<and> msToDateKey None = None \<and>
   (t \<noteq> 0 \<and> - 30610224000000 \<le> t \<and> t \<le> 253402300799999 \<longrightarrow>
      (\<exists>s. msToDateKey (Some t) = Some s \<and> is_YYYY_MM_DD s \<and>
           s = String_of_int (YearFromTime t) @ ''-'' @
               padStart0 2 (String_of_int (MonthFromTime t + 1)) @ ''-'' @
               padStart0 2 (String_of_int (DateFromTime t))) \<and>
      1000 \<le> YearFromTime t \<and> YearFromTime t \<le> 9999 \<and>
      1 \<le> MonthFromTime t + 1 \<and> MonthFromTime t + 1 \<le> 12 \<and>
      1 \<le> DateFromTime t \<and> DateFromTime t \<le> 31)"
proof -
  have "YearFromTime 1700000000000 = 2023" "MonthFromTime 1700000000000 = 10"
    "DateFromTime 1700000000000 = 14"
    by (simp_all add: date_eval Let_def)
  then have a: "msToDateKey (Some 1700000000000) = Some ''2023-11-14''"
    by (simp add: msToDateKey_def valid_time_def String_of_int_def padStart0_def
        digits.simps Let_def)
  have b: "msToDateKey (Some 0) = None" "msToDateKey None = None"
    by (simp_all add: msToDateKey_def)
  have c: "\<exists>s. msToDateKey (Some t) = Some s \<and> is_YYYY_MM_DD s \<and>
           s = String_of_int (YearFromTime t) @ ''-'' @
               padStart0 2 (String_of_int (MonthFromTime t + 1)) @ ''-'' @
               padStart0 2 (String_of_int (DateFromTime t))"
    if "t \<noteq> 0" "- 30610224000000 \<le> t" "t \<le> 253402300799999"
  proof -
    from that msToDateKey_form obtain s where s: "msToDateKey (Some t) = Some s" "is_YYYY_MM_DD s"
      by blast
    from that have "valid_time t" by (simp add: valid_time_def)
    with that(1) s(1) have "s = String_of_int (YearFromTime t) @ ''-'' @
               padStart0 2 (String_of_int (MonthFromTime t + 1)) @ ''-'' @
               padStart0 2 (String_of_int (DateFromTime t))"
      by (simp add: msToDateKey_def Let_def)
    with s show ?thesis by blast
  qed
  have d: "1000 \<le> YearFromTime t \<and> YearFromTime t \<le> 9999"
    if "- 30610224000000 \<le> t" "t \<le> 253402300799999"
    using that by (rule YearFromTime_four_digits)
  have e: "1 \<le> MonthFromTime t + 1 \<and> MonthFromTime t + 1 \<le> 12"
    using MonthFromTime_bounds [of t] by simp
  from a b c d e DateFromTime_bounds [of t] show ?thesis by blast
qed

theorem msToDateKey_key_witness:
  "(1709164800000::int) \<noteq> 0 \<and> - 30610224000000 \<le> (1709164800000::int) \<and>
   (1709164800000::int) \<le> 253402300799999 \<and>
   msToDateKey (Some 1709164800000) = Some ''2024-02-29'' \<and>
   is_YYYY_MM_DD ''2024-02-29''"
proof -
  have "YearFromTime 1709164800000 = 2024" "MonthFromTime 1709164800000 = 1"
    "DateFromTime 1709164800000 = 29"
    by (simp_all add: date_eval Let_def)
  then have k: "msToDateKey (Some 1709164800000) = Some ''2024-02-29''"
    by (simp add: msToDateKey_def valid_time_def String_of_int_def padStart0_def
        digits.simps Let_def)
  from msToDateKey_key [of 1709164800000] k show ?thesis
    by auto
qed

section \<open>Properties of the cohort transaction\<close>

lemmas cohort_update_defs =
  cohort_update_def compute_rates_def increment_new_def decrement_previous_def
  increment_total_def

lemma run_transitions_append:
  "run_transitions c (ts @ us) = run_transitions (run_transitions c ts) us"
  by (induction ts arbitrary: c) auto

lemma total_trials_cohort_update:
  "total_trials (cohort_update e p s c) =
     (if e = Some ''INITIAL_PURCHASE'' \<and> \<not> truthy_str p then total_trials c + 1 else total_trials c)"
  by (simp add: cohort_update_defs Let_def)

lemma buckets_nonneg_cohort_update:
  "buckets_nonneg c \<Longrightarrow> buckets_nonneg (cohort_update e p s c)"
  by (simp add: cohort_update_defs buckets_nonneg_def Let_def)

lemma buckets_nonneg_run:
  "buckets_nonneg c \<Longrightarrow> buckets_nonneg (run_transitions c ts)"
  by (induction ts arbitrary: c) (auto simp: buckets_nonneg_cohort_update)

lemma total_trials_run_mono:
  "total_trials c \<le> total_trials (run_transitions c ts)"
proof (induction ts arbitrary: c)
  case Nil
  show ?case by simp
next
  case (Cons t ts)
  obtain e p s where t: "t = (e, p, s)" by (cases t)
  have "total_trials c \<le> total_trials (cohort_update e p s c)"
    by (simp add: total_trials_cohort_update)
  also have "\<dots> \<le> total_trials (run_transitions (cohort_update e p s c) ts)"
    by (rule Cons.IH)
  finally show ?case by (simp add: t)
qed

lemma buckets_nonneg_zeroed: "buckets_nonneg (zeroed d)"
  by (simp add: buckets_nonneg_def zeroed_def)

text \<open>
  Claim C5. Starting from the zeroed record, or from any record whose four bucket
  counters are non-negative, each of \<open>in_trial\<close>, \<open>converted\<close>, \<open>cancelled\<close> and
  \<open>billing_issue\<close> is non-negative after every transaction of every finite sequence,
  whatever the event types, previous statuses and new statuses are.
\<close>

theorem buckets_never_negative:
  "(\<forall>n. buckets_nonneg (run_transitions (zeroed d) (take n ts))) \<and>
   (buckets_nonneg c \<longrightarrow> (\<forall>n. buckets_nonneg (run_transitions c (take n ts))))"
  by (simp add: buckets_nonneg_run buckets_nonneg_zeroed)

theorem buckets_never_negative_witness:
  "buckets_nonneg (zeroed ''2023-11-14''\<lparr>converted := 1\<rparr>) \<and>
   buckets_nonneg (run_transitions (zeroed ''2023-11-14''\<lparr>converted := 1\<rparr>)
     (take 2 [(Some ''CANCELLATION'', Some ''Still in Trial'', ''Cancelled''),
              (Some ''EXPIRATION'', Some ''Billing Issue'', ''Cancelled'')]))"
proof -
  have h: "buckets_nonneg (zeroed ''2023-11-14''\<lparr>converted := 1\<rparr>)"
    by (simp add: buckets_nonneg_def zeroed_def)
  show ?thesis
    using h buckets_never_negative
      [of "''2023-11-14''"
          "[(Some ''CANCELLATION'', Some ''Still in Trial'', ''Cancelled''),
            (Some ''EXPIRATION'', Some ''Billing Issue'', ''Cancelled'')]"
          "zeroed ''2023-11-14''\<lparr>converted := 1\<rparr>"]
    by blast
qed

lemma in_trial_cohort_update:
  "in_trial (cohort_update e p s c) =
     (if p = Some ''Still in Trial'' then max 0 (in_trial c - 1) else in_trial c)
     + (if s = ''Still in Trial'' then 1 else 0)"
  by (simp add: cohort_update_defs Let_def)

lemma converted_cohort_update:
  "converted (cohort_update e p s c) =
     (if p = Some ''Converted'' then max 0 (converted c - 1) else converted c)
     + (if s = ''Converted'' then 1 else 0)"
  by (simp add: cohort_update_defs Let_def)

lemma cancelled_cohort_update:
  "cancelled (cohort_update e p s c) =
     (if p = Some ''Cancelled'' then max 0 (cancelled c - 1) else cancelled c)
     + (if s = ''Cancelled'' then 1 else 0)"
  by (simp add: cohort_update_defs Let_def)

lemma billing_issue_cohort_update:
  "billing_issue (cohort_update e p s c) =
     (if p = Some ''Billing Issue'' then max 0 (billing_issue c - 1) else billing_issue c)
     + (if s = ''Billing Issue'' then 1 else 0)"
  by (simp add: cohort_update_defs Let_def)

lemma new_bucket_le_1:
  "(if s = ''Still in Trial'' then 1 else 0) + (if s = ''Converted'' then 1 else 0)
   + (if s = ''Cancelled'' then 1 else 0) + (if s = ''Billing Issue'' then 1 else (0::int)) \<le> 1"
  by simp


lemma bucket_of_cases:
  assumes "bucket_of s c \<noteq> None"
  obtains "s = ''Still in Trial''" | "s = ''Converted''" | "s = ''Cancelled''" | "s = ''Billing Issue''"
  using assms unfolding bucket_of_def by metis

lemma bucket_after_first_application:
  assumes "buckets_nonneg c" and "bucket_of s c \<noteq> None"
  shows "\<exists>n. bucket_of s (cohort_update e p s c) = Some n \<and> 1 \<le> n"
  using assms(2)
proof (cases rule: bucket_of_cases)
  case 1
  with assms(1) show ?thesis
    by (simp add: bucket_of_def in_trial_cohort_update buckets_nonneg_def)
next
  case 2
  with assms(1) show ?thesis
    by (simp add: bucket_of_def converted_cohort_update buckets_nonneg_def)
next
  case 3
  with assms(1) show ?thesis
    by (simp add: bucket_of_def cancelled_cohort_update buckets_nonneg_def)
next
  case 4
  with assms(1) show ?thesis
    by (simp add: bucket_of_def billing_issue_cohort_update buckets_nonneg_def)
qed

text \<open>
  Claim C4. When an event's transition is applied a second time, the user's previous
  status being the new status already and the bucket of that status holding at least 1,
  the second application leaves \<open>total_trials\<close> and the four bucket counters as they
  are. The hypothesis holds in particular after a first application to a record with
  non-negative buckets.
\<close>

theorem same_transition_twice:
  "bucket_of s c = Some n \<Longrightarrow> 1 \<le> n \<Longrightarrow>
     total_trials (cohort_update e (Some s) s c) = total_trials c \<and>
     in_trial (cohort_update e (Some s) s c) = in_trial c \<and>
     converted (cohort_update e (Some s) s c) = converted c \<and>
     cancelled (cohort_update e (Some s) s c) = cancelled c \<and>
     billing_issue (cohort_update e (Some s) s c) = billing_issue c"
  by (auto simp: cohort_update_defs bucket_of_def Let_def split: if_splits)

theorem same_transition_twice_witness:
  "bucket_of ''Converted''
     (cohort_update (Some ''RENEWAL'') (Some ''Still in Trial'') ''Converted''
        (zeroed ''2023-11-14''\<lparr>total_trials := 1, in_trial := 1\<rparr>)) = Some 1 \<and>
   (1::int) \<le> 1 \<and>
   converted (cohort_update (Some ''RENEWAL'') (Some ''Converted'') ''Converted''
     (cohort_update (Some ''RENEWAL'') (Some ''Still in Trial'') ''Converted''
        (zeroed ''2023-11-14''\<lparr>total_trials := 1, in_trial := 1\<rparr>))) = 1"
proof -
  let ?c = "cohort_update (Some ''RENEWAL'') (Some ''Still in Trial'') ''Converted''
        (zeroed ''2023-11-14''\<lparr>total_trials := 1, in_trial := 1\<rparr>)"
  have b: "bucket_of ''Converted'' ?c = Some 1"
    by (simp add: bucket_of_def cohort_update_defs zeroed_def Let_def)
  have c: "converted ?c = 1"
    by (simp add: cohort_update_defs zeroed_def Let_def)
  from same_transition_twice [OF b, of "Some ''RENEWAL''"] b c show ?thesis
    by simp
qed

lemma bucket_sum_cohort_update_eq:
  "bucket_sum (cohort_update e p s c) =
     (if p = Some ''Still in Trial'' then max 0 (in_trial c - 1) else in_trial c)
   + (if p = Some ''Converted'' then max 0 (converted c - 1) else converted c)
   + (if p = Some ''Cancelled'' then max 0 (cancelled c - 1) else cancelled c)
   + (if p = Some ''Billing Issue'' then max 0 (billing_issue c - 1) else billing_issue c)
   + ((if s = ''Still in Trial'' then 1 else 0) + (if s = ''Converted'' then 1 else 0)
      + (if s = ''Cancelled'' then 1 else 0) + (if s = ''Billing Issue'' then 1 else 0))"
  unfolding bucket_sum_def in_trial_cohort_update converted_cohort_update
    cancelled_cohort_update billing_issue_cohort_update
  by (simp only: add.assoc add.left_commute add.commute)

lemma bucket_sum_cohort_update:
  assumes "accounted c (e, p, s)" and "bucket_sum c \<le> total_trials c"
  shows "bucket_sum (cohort_update e p s c) \<le> total_trials (cohort_update e p s c)"
proof (cases "e = Some ''INITIAL_PURCHASE'' \<and> \<not> truthy_str p")
  case True
  then have "p = None \<or> p = Some []" by (cases p) auto
  then have "bucket_sum (cohort_update e p s c) \<le> bucket_sum c + 1"
    unfolding bucket_sum_cohort_update_eq using new_bucket_le_1 [of s]
    by (auto simp: bucket_sum_def)
  with True assms(2) show ?thesis
    by (simp add: total_trials_cohort_update)
next
  case False
  with assms(1) obtain q n where q: "p = Some q" "bucket_of q c = Some n" "1 \<le> n"
    by (auto simp: accounted_def split: option.splits)
  from q(2) have "bucket_of q c \<noteq> None" by simp
  then have "bucket_sum (cohort_update e p s c) \<le> bucket_sum c"
  proof (cases rule: bucket_of_cases)
    case 1
    with q show ?thesis
      unfolding bucket_sum_cohort_update_eq using new_bucket_le_1 [of s]
      by (simp add: bucket_sum_def bucket_of_def)
  next
    case 2
    with q show ?thesis
      unfolding bucket_sum_cohort_update_eq using new_bucket_le_1 [of s]
      by (simp add: bucket_sum_def bucket_of_def)
  next
    case 3
    with q show ?thesis
      unfolding bucket_sum_cohort_update_eq using new_bucket_le_1 [of s]
      by (simp add: bucket_sum_def bucket_of_def)
  next
    case 4
    with q show ?thesis
      unfolding bucket_sum_cohort_update_eq using new_bucket_le_1 [of s]
      by (simp add: bucket_sum_def bucket_of_def)
  qed
  moreover have "total_trials c \<le> total_trials (cohort_update e p s c)"
    by (simp add: total_trials_cohort_update)
  ultimately show ?thesis using assms(2) by linarith
qed

lemma bucket_sum_run:
  "accounted_run c ts \<Longrightarrow> bucket_sum c \<le> total_trials c \<Longrightarrow>
     bucket_sum (run_transitions c ts) \<le> total_trials (run_transitions c ts)"
proof (induction ts arbitrary: c)
  case Nil
  then show ?case by simp
next
  case (Cons t ts)
  obtain e p s where t: "t = (e, p, s)" by (cases t)
  from Cons.prems t have a: "accounted c (e, p, s)"
    and r: "accounted_run (cohort_update e p s c) ts" by auto
  from a Cons.prems(2) have "bucket_sum (cohort_update e p s c) \<le> total_trials (cohort_update e p s c)"
    by (rule bucket_sum_cohort_update)
  with r have "bucket_sum (run_transitions (cohort_update e p s c) ts)
      \<le> total_trials (run_transitions (cohort_update e p s c) ts)"
    by (rule Cons.IH)
  then show ?case by (simp add: t)
qed




section \<open>The cohort transaction in binary64 arithmetic\<close>

text \<open>
  The webhook runs the transaction on JavaScript numbers. The lemmas below show that the
  binary64 form agrees with the exact-integer form while all counters stay within
  \<open>\<plusminus>(2^53 - 2)\<close>, and what happens to \<open>total_trials\<close> at the boundary.
\<close>

lemmas cohort_update_f64_defs =
  cohort_update_f64_def compute_rates_def increment_new_f64_def decrement_previous_f64_def
  increment_total_f64_def

lemma run_transitions_f64_append:
  "run_transitions_f64 c (ts @ us) = run_transitions_f64 (run_transitions_f64 c ts) us"
  by (induction ts arbitrary: c) auto

lemma total_trials_cohort_update_f64:
  "total_trials (cohort_update_f64 e p s c) =
     (if e = Some ''INITIAL_PURCHASE'' \<and> \<not> truthy_str p
      then f64_int (total_trials c + 1) else total_trials c)"
  by (simp add: cohort_update_f64_defs Let_def)

lemma increment_total_f64_exact:
  assumes "\<bar>total_trials c + 1\<bar> \<le> 9007199254740992"
  shows "increment_total_f64 e p c = increment_total e p c"
  unfolding increment_total_f64_def increment_total_def f64_int_exact [OF assms] ..

lemma decrement_previous_f64_exact:
  assumes "counters_within (- 9007199254740991) 9007199254740991 c"
  shows "decrement_previous_f64 p c = decrement_previous p c"
proof -
  have e: "f64_int (in_trial c - 1) = in_trial c - 1"
    "f64_int (converted c - 1) = converted c - 1"
    "f64_int (cancelled c - 1) = cancelled c - 1"
    "f64_int (billing_issue c - 1) = billing_issue c - 1"
    using assms by (simp_all add: counters_within_def f64_int_exact abs_le_iff)
  show ?thesis
    unfolding decrement_previous_f64_def decrement_previous_def e ..
qed

lemma increment_new_f64_exact:
  assumes "counters_within (- 9007199254740991) 9007199254740991 c"
  shows "increment_new_f64 s c = increment_new s c"
proof -
  have e: "f64_int (in_trial c + 1) = in_trial c + 1"
    "f64_int (converted c + 1) = converted c + 1"
    "f64_int (cancelled c + 1) = cancelled c + 1"
    "f64_int (billing_issue c + 1) = billing_issue c + 1"
    using assms by (simp_all add: counters_within_def f64_int_exact abs_le_iff)
  show ?thesis
    unfolding increment_new_f64_def increment_new_def e ..
qed

lemma counters_within_increment_total:
  assumes "counters_within lo hi c"
  shows "counters_within lo (hi + 1) (increment_total e p c)"
  using assms by (simp add: counters_within_def increment_total_def)

lemma decrement_previous_fields:
  "total_trials (decrement_previous p c) = total_trials c"
  "in_trial (decrement_previous p c) =
     (if p = Some ''Still in Trial'' then max 0 (in_trial c - 1) else in_trial c)"
  "converted (decrement_previous p c) =
     (if p = Some ''Converted'' then max 0 (converted c - 1) else converted c)"
  "cancelled (decrement_previous p c) =
     (if p = Some ''Cancelled'' then max 0 (cancelled c - 1) else cancelled c)"
  "billing_issue (decrement_previous p c) =
     (if p = Some ''Billing Issue'' then max 0 (billing_issue c - 1) else billing_issue c)"
  by (simp_all add: decrement_previous_def)

lemma counters_within_decrement_previous:
  assumes "counters_within lo hi c" and "lo \<le> 0" and "0 \<le> hi"
  shows "counters_within lo hi (decrement_previous p c)"
proof -
  have m: "lo \<le> max 0 (x - 1) \<and> max 0 (x - 1) \<le> hi" if "lo \<le> x" "x \<le> hi" for x
    using that assms(2,3) by linarith
  from assms(1) show ?thesis
    unfolding counters_within_def decrement_previous_fields by (simp add: m assms(3))
qed

lemma counters_within_increment_new:
  assumes "counters_within lo hi c"
  shows "counters_within lo (hi + 1) (increment_new s c)"
  using assms by (simp add: counters_within_def increment_new_def)

lemma counters_within_mono:
  "counters_within lo hi c \<Longrightarrow> lo' \<le> lo \<Longrightarrow> hi \<le> hi' \<Longrightarrow> counters_within lo' hi' c"
  by (simp add: counters_within_def)

lemma counters_within_compute_rates:
  "counters_within lo hi (compute_rates c) = counters_within lo hi c"
  by (simp add: counters_within_def compute_rates_def Let_def)


lemma cohort_update_f64_exact:
  assumes "counters_within (- 9007199254740990) 9007199254740990 c"
  shows "cohort_update_f64 e p s c = cohort_update e p s c"
proof -
  have t: "\<bar>total_trials c + 1\<bar> \<le> 9007199254740992"
    using assms by (simp add: counters_within_def abs_le_iff)
  have 1: "increment_total_f64 e p c = increment_total e p c"
    using t by (rule increment_total_f64_exact)
  have "counters_within (- 9007199254740990) (9007199254740990 + 1) (increment_total e p c)"
    using assms by (rule counters_within_increment_total)
  then have w1: "counters_within (- 9007199254740991) 9007199254740991 (increment_total e p c)"
    by (rule counters_within_mono) simp_all
  have 2: "decrement_previous_f64 p (increment_total e p c) = decrement_previous p (increment_total e p c)"
    using w1 by (rule decrement_previous_f64_exact)
  have w2: "counters_within (- 9007199254740991) 9007199254740991
      (decrement_previous p (increment_total e p c))"
    by (rule counters_within_decrement_previous [OF w1]) simp_all
  have 3: "increment_new_f64 s (decrement_previous p (increment_total e p c)) =
      increment_new s (decrement_previous p (increment_total e p c))"
    using w2 by (rule increment_new_f64_exact)
  show ?thesis
    unfolding cohort_update_f64_def cohort_update_def 1 2 3 ..
qed

lemma counters_within_cohort_update:
  assumes "counters_within 0 n c" and "0 \<le> n"
  shows "counters_within 0 (n + 1) (cohort_update e p s c)"
proof -
  have "counters_within 0 (n + 1) (increment_total e p c)"
    using assms(1) by (rule counters_within_increment_total)
  then have a: "total_trials (increment_total e p c) \<le> n + 1"
    by (simp add: counters_within_def)
  have b: "counters_within 0 n (decrement_previous p c)"
    by (rule counters_within_decrement_previous [OF assms(1)]) (simp_all add: assms(2))
  have "counters_within 0 (n + 1) (increment_new s (decrement_previous p c))"
    using b by (rule counters_within_increment_new)
  moreover have "total_trials (cohort_update e p s c) = total_trials (increment_total e p c)"
    by (simp add: cohort_update_defs Let_def)
  moreover have "in_trial (cohort_update e p s c) = in_trial (increment_new s (decrement_previous p c))"
    "converted (cohort_update e p s c) = converted (increment_new s (decrement_previous p c))"
    "cancelled (cohort_update e p s c) = cancelled (increment_new s (decrement_previous p c))"
    "billing_issue (cohort_update e p s c) = billing_issue (increment_new s (decrement_previous p c))"
    by (simp_all add: cohort_update_defs Let_def)
  moreover have "0 \<le> total_trials (increment_total e p c)"
    using assms(1) by (simp add: counters_within_def increment_total_def)
  ultimately show ?thesis
    using a by (simp add: counters_within_def)
qed

lemma run_transitions_f64_exact:
  "counters_within 0 n c \<Longrightarrow> 0 \<le> n \<Longrightarrow> n + int (length ts) \<le> 9007199254740991 \<Longrightarrow>
     run_transitions_f64 c ts = run_transitions c ts \<and>
     counters_within 0 (n + int (length ts)) (run_transitions c ts)"
proof (induction ts arbitrary: c n)
  case Nil
  then show ?case by simp
next
  case (Cons t ts)
  obtain e p s where t: "t = (e, p, s)" by (cases t)
  from Cons.prems have "counters_within (- 9007199254740990) 9007199254740990 c"
    by (auto intro: counters_within_mono)
  then have u: "cohort_update_f64 e p s c = cohort_update e p s c"
    by (rule cohort_update_f64_exact)
  have w: "counters_within 0 (n + 1) (cohort_update e p s c)"
    using Cons.prems(1,2) by (rule counters_within_cohort_update)
  have "run_transitions_f64 (cohort_update e p s c) ts = run_transitions (cohort_update e p s c) ts \<and>
     counters_within 0 (n + 1 + int (length ts)) (run_transitions (cohort_update e p s c) ts)"
    using w Cons.prems(2,3) by (intro Cons.IH) simp_all
  moreover have "n + 1 + int (length ts) = n + int (length (t # ts))" by simp
  ultimately show ?case
    by (simp only: t u run_transitions_f64.simps run_transitions.simps)
qed

lemma counters_within_zeroed: "counters_within 0 0 (zeroed d)"
  by (simp add: counters_within_def zeroed_def)

lemma run_from_zeroed_exact:
  assumes "int (length ts) \<le> 9007199254740991"
  shows "run_transitions_f64 (zeroed d) ts = run_transitions (zeroed d) ts"
    and "counters_within 0 (int (length ts)) (run_transitions (zeroed d) ts)"
  using run_transitions_f64_exact [OF counters_within_zeroed, of ts d] assms by simp_all


text \<open>
  So the properties of the exact-integer form proved above hold of what the webhook
  computes, for every cohort state it reaches from the zeroed record in fewer than
  \<open>2^53\<close> transactions, and for a single transaction on any record whose counters lie
  within \<open>\<plusminus>(2^53 - 2)\<close>.
\<close>

lemma buckets_nonneg_run_f64:
  assumes "int (length ts) \<le> 9007199254740991"
  shows "buckets_nonneg (run_transitions_f64 (zeroed d) ts)"
  unfolding run_from_zeroed_exact(1) [OF assms]
  by (rule buckets_nonneg_run) (rule buckets_nonneg_zeroed)

lemma bucket_sum_run_f64:
  assumes "int (length ts) \<le> 9007199254740991" and "accounted_run (zeroed d) ts"
  shows "bucket_sum (run_transitions_f64 (zeroed d) ts)
      \<le> total_trials (run_transitions_f64 (zeroed d) ts)"
  unfolding run_from_zeroed_exact(1) [OF assms(1)]
  using assms(2) by (rule bucket_sum_run) (simp add: bucket_sum_def zeroed_def)

lemma reapplied_transition_f64:
  assumes "counters_within (- 9007199254740990) 9007199254740990 c"
    and "bucket_of s c = Some n" and "1 \<le> n"
  shows "total_trials (cohort_update_f64 e (Some s) s c) = total_trials c"
    and "in_trial (cohort_update_f64 e (Some s) s c) = in_trial c"
    and "converted (cohort_update_f64 e (Some s) s c) = converted c"
    and "cancelled (cohort_update_f64 e (Some s) s c) = cancelled c"
    and "billing_issue (cohort_update_f64 e (Some s) s c) = billing_issue c"
  unfolding cohort_update_f64_exact [OF assms(1)]
  using assms(2,3)
  by (auto simp: total_trials_cohort_update in_trial_cohort_update converted_cohort_update
      cancelled_cohort_update billing_issue_cohort_update bucket_of_def split: if_splits)

lemma total_trials_step_f64:
  assumes "\<bar>total_trials c\<bar> \<le> 9007199254740992"
  shows "total_trials (cohort_update_f64 e p s c) =
     (if e = Some ''INITIAL_PURCHASE'' \<and> \<not> truthy_str p \<and> total_trials c < 9007199254740992
      then total_trials c + 1 else total_trials c)"
  unfolding total_trials_cohort_update_f64 f64_int_succ [OF assms] by simp

lemma total_trials_bound_f64:
  assumes "\<bar>total_trials c\<bar> \<le> 9007199254740992"
  shows "\<bar>total_trials (cohort_update_f64 e p s c)\<bar> \<le> 9007199254740992"
  unfolding total_trials_step_f64 [OF assms] using assms by (simp add: abs_le_iff)

lemma total_trials_run_mono_f64:
  "\<bar>total_trials c\<bar> \<le> 9007199254740992 \<Longrightarrow>
     total_trials c \<le> total_trials (run_transitions_f64 c ts) \<and>
     \<bar>total_trials (run_transitions_f64 c ts)\<bar> \<le> 9007199254740992"
proof (induction ts arbitrary: c)
  case Nil
  then show ?case by simp
next
  case (Cons t ts)
  obtain e p s where t: "t = (e, p, s)" by (cases t)
  have b: "\<bar>total_trials (cohort_update_f64 e p s c)\<bar> \<le> 9007199254740992"
    using Cons.prems by (rule total_trials_bound_f64)
  have "total_trials c \<le> total_trials (cohort_update_f64 e p s c)"
    unfolding total_trials_step_f64 [OF Cons.prems] by simp
  with Cons.IH [OF b] show ?case by (simp add: t)
qed

text \<open>
  Claim C6, as stated, fails: at \<open>total_trials = 2^53\<close> (a value a stored record can
  hold) the sum \<open>total_trials + 1\<close> is rounded back to \<open>2^53\<close>, so an INITIAL_PURCHASE of
  a user with no previous status leaves \<open>total_trials\<close> as it is.
\<close>

theorem total_trials_absorbed_counterexample:
  "total_trials (cohort_update_f64 (Some ''INITIAL_PURCHASE'') None ''Still in Trial''
      ((zeroed ''2023-11-14'')\<lparr>total_trials := 9007199254740992\<rparr>)) = 9007199254740992 \<and>
   total_trials (cohort_update_f64 (Some ''INITIAL_PURCHASE'') None ''Still in Trial''
      ((zeroed ''2023-11-14'')\<lparr>total_trials := 9007199254740992\<rparr>))
     \<noteq> total_trials ((zeroed ''2023-11-14'')\<lparr>total_trials := 9007199254740992\<rparr>) + 1"
proof -
  have "f64_int (9007199254740992 + 1) = 9007199254740992"
    using f64_int_succ [of 9007199254740992] by simp
  then show ?thesis
    by (simp add: total_trials_cohort_update_f64 zeroed_def)
qed

text \<open>
  Claim C6, amended. Across any sequence of webhook cohort transactions on one cohort
  record whose \<open>total_trials\<close> is an integer of absolute value at most \<open>2^53\<close>,
  \<open>total_trials\<close> never decreases; a single transaction increments it by exactly 1
  precisely when the event type is INITIAL_PURCHASE, the user had no previous status (none
  stored, or an empty one) and \<open>total_trials\<close> is below \<open>2^53\<close>, and leaves it unchanged
  otherwise.
\<close>

theorem total_trials_monotonic:
  "\<bar>total_trials c\<bar> \<le> 9007199254740992 \<Longrightarrow>
     total_trials (run_transitions_f64 c ts) \<le> total_trials (run_transitions_f64 c (ts @ us)) \<and>
     (total_trials (cohort_update_f64 e p s c) = total_trials c + 1
        \<longleftrightarrow> e = Some ''INITIAL_PURCHASE'' \<and> \<not> truthy_str p \<and>
            total_trials c < 9007199254740992) \<and>
     (total_trials (cohort_update_f64 e p s c) = total_trials c
        \<longleftrightarrow> \<not> (e = Some ''INITIAL_PURCHASE'' \<and> \<not> truthy_str p \<and>
               total_trials c < 9007199254740992))"
proof -
  assume a: "\<bar>total_trials c\<bar> \<le> 9007199254740992"
  have "\<bar>total_trials (run_transitions_f64 c ts)\<bar> \<le> 9007199254740992"
    using total_trials_run_mono_f64 [OF a, of ts] by simp
  then have "total_trials (run_transitions_f64 c ts)
      \<le> total_trials (run_transitions_f64 (run_transitions_f64 c ts) us)"
    using total_trials_run_mono_f64 by blast
  then show ?thesis
    unfolding total_trials_step_f64 [OF a] by (simp add: run_transitions_f64_append)
qed

theorem total_trials_monotonic_witness:
  "\<bar>total_trials (zeroed ''2023-11-14'')\<bar> \<le> 9007199254740992 \<and>
   total_trials (cohort_update_f64 (Some ''INITIAL_PURCHASE'') None ''Still in Trial''
      (zeroed ''2023-11-14'')) = total_trials (zeroed ''2023-11-14'') + 1 \<and>
   total_trials (cohort_update_f64 (Some ''RENEWAL'') None ''Converted''
      (zeroed ''2023-11-14'')) = total_trials (zeroed ''2023-11-14'')"
proof -
  have a: "\<bar>total_trials (zeroed ''2023-11-14'')\<bar> \<le> 9007199254740992"
    by (simp add: zeroed_def)
  have b: "total_trials (zeroed ''2023-11-14'') < 9007199254740992"
    by (simp add: zeroed_def)
  from total_trials_monotonic [OF a, of "[]" "[]" "Some ''INITIAL_PURCHASE''" None "''Still in Trial''"]
    total_trials_monotonic [OF a, of "[]" "[]" "Some ''RENEWAL''" None "''Converted''"] a b
  show ?thesis by simp
qed

section \<open>Properties of the stored rates\<close>

lemma Math_round_bounds: "of_int (Math_round y) \<le> y + 1 / 2 \<and> y - 1 / 2 < of_int (Math_round y)"
  unfolding Math_round_def by linarith

lemma rate_scaled_nonneg:
  assumes "0 \<le> b" and "0 < t"
  shows "0 \<le> rate_scaled b t"
proof -
  have "(0::rat) \<le> of_int b / of_int t" using assms by simp
  then have "0 \<le> binary64 (of_int b / of_int t)" by (rule binary64_nonneg)
  then have "0 \<le> binary64 (of_int b / of_int t) * 10000" by simp
  then have "0 \<le> binary64 (binary64 (of_int b / of_int t) * 10000)" by (rule binary64_nonneg)
  then have "0 \<le> binary64 (binary64 (of_int b / of_int t) * 10000) + 1 / 2" by simp
  then show ?thesis unfolding rate_scaled_def Math_round_def by simp
qed

lemma rate_of_nonneg:
  assumes "0 \<le> b" and "0 < t"
  shows "0 \<le> rate_of b t"
proof -
  have "(0::rat) \<le> of_int (rate_scaled b t) / 10000"
    using rate_scaled_nonneg [OF assms] by simp
  then show ?thesis unfolding rate_of_def by (rule binary64_nonneg)
qed

lemma binary64_le_int':
  assumes "0 \<le> x" and "x \<le> of_int N" and "x < 2 ^ 53"
  shows "binary64 x \<le> of_int N"
proof (cases "x = 0")
  case True
  with assms(2) show ?thesis by (simp add: binary64_0)
next
  case False
  with assms(1) have "0 < x" by simp
  then show ?thesis using assms(2,3) by (rule binary64_le_int)
qed

lemma rate_scaled_le:
  assumes "0 \<le> b" and "b \<le> t" and "0 < t"
  shows "rate_scaled b t \<le> 10000"
proof -
  define q where "q = binary64 (of_int b / of_int t)"
  have x: "(0::rat) \<le> of_int b / of_int t" "(of_int b :: rat) / of_int t \<le> of_int 1"
    using assms by simp_all
  have q0: "0 \<le> q" unfolding q_def using x(1) by (rule binary64_nonneg)
  have q1: "q \<le> of_int 1"
    unfolding q_def using x by (rule binary64_le_int') (use x(2) in simp)
  have "q * 10000 \<le> of_int 10000" using q1 by simp
  moreover have "0 \<le> q * 10000" using q0 by simp
  moreover have "q * 10000 < 2 ^ 53" using q1 by simp
  ultimately have "binary64 (q * 10000) \<le> of_int 10000"
    by (intro binary64_le_int') simp_all
  then have "binary64 (q * 10000) + 1 / 2 < of_int 10001" by simp
  then have "\<lfloor>binary64 (q * 10000) + 1 / 2\<rfloor> < 10001"
    by (simp only: floor_less_iff)
  then show ?thesis unfolding rate_scaled_def Math_round_def q_def by simp
qed

lemma rate_of_le_1:
  assumes "0 \<le> b" and "b \<le> t" and "0 < t"
  shows "rate_of b t \<le> 1"
proof -
  have "rate_scaled b t \<le> 10000" using assms by (rule rate_scaled_le)
  then have "(of_int (rate_scaled b t) :: rat) \<le> 10000"
    by (metis of_int_le_iff of_int_numeral)
  then have k: "(of_int (rate_scaled b t) :: rat) / 10000 \<le> of_int 1" by simp
  have "0 \<le> rate_scaled b t" using assms(1,3) by (rule rate_scaled_nonneg)
  then have k0: "(0::rat) \<le> of_int (rate_scaled b t) / 10000" by simp
  have "(of_int (rate_scaled b t) :: rat) / 10000 < 2 ^ 53" using k by simp
  with k0 k have "binary64 (of_int (rate_scaled b t) / 10000) \<le> of_int 1"
    by (rule binary64_le_int')
  then show ?thesis by (simp add: rate_of_def)
qed

lemma binary64_error_pos:
  assumes "0 \<le> x"
  shows "binary64 x \<le> x + x / 2 ^ 53" and "x - x / 2 ^ 53 \<le> binary64 x"
proof -
  have "\<bar>binary64 x - x\<bar> \<le> x / 2 ^ 53"
  proof (cases "x = 0")
    case True
    then show ?thesis by (simp add: binary64_0)
  next
    case False
    from binary64_error [OF this] assms show ?thesis by simp
  qed
  then show "binary64 x \<le> x + x / 2 ^ 53" and "x - x / 2 ^ 53 \<le> binary64 x"
    unfolding abs_le_iff by linarith+
qed

lemma rate_scaled_nearest:
  assumes "0 \<le> b" and "b \<le> 100000000000" and "0 < t"
  shows "\<bar>of_int (rate_scaled b t) - 10000 * of_int b / of_int t\<bar> \<le> (1 / 2 :: rat)"
proof -
  define x :: rat where "x = of_int b / of_int t"
  define q where "q = binary64 x"
  define y where "y = binary64 (q * 10000)"
  define k where "k = rate_scaled b t"
  define B :: rat where "B = of_int b"
  define T :: rat where "T = of_int t"
  have T: "0 < T" using assms(3) by (simp add: T_def)
  have B: "0 \<le> B" "B \<le> 100000000000" using assms(1,2) by (simp_all add: B_def)
  have x0: "0 \<le> x" using assms by (simp add: x_def)
  have xT: "x * T = B" using T by (simp add: x_def B_def T_def)
  have q: "q \<le> x + x / 2 ^ 53" "x - x / 2 ^ 53 \<le> q"
    unfolding q_def using x0 by (rule binary64_error_pos)+
  have q0: "0 \<le> q" unfolding q_def using x0 by (rule binary64_nonneg)
  then have "0 \<le> q * 10000" by simp
  then have y: "y \<le> q * 10000 + q * 10000 / 2 ^ 53" "q * 10000 - q * 10000 / 2 ^ 53 \<le> y"
    unfolding y_def by (rule binary64_error_pos)+
  have k: "of_int k \<le> y + 1 / 2" "y - 1 / 2 < of_int k"
    using Math_round_bounds [of y] by (simp_all add: k_def rate_scaled_def y_def q_def x_def)
  \<comment> \<open>everything multiplied by \<open>T\<close>\<close>
  define qT where "qT = q * T"
  define yT where "yT = y * T"
  define kT where "kT = of_int k * T"
  have qT: "qT \<le> B + B / 2 ^ 53" "B - B / 2 ^ 53 \<le> qT"
  proof -
    have "q * T \<le> (x + x / 2 ^ 53) * T" using q(1) T by (intro mult_right_mono) simp_all
    then show "qT \<le> B + B / 2 ^ 53"
      using xT by (simp add: qT_def distrib_right)
    have "(x - x / 2 ^ 53) * T \<le> q * T" using q(2) T by (intro mult_right_mono) simp_all
    then show "B - B / 2 ^ 53 \<le> qT"
      using xT by (simp add: qT_def left_diff_distrib)
  qed
  have yT: "yT \<le> qT * 10000 + qT * 10000 / 2 ^ 53" "qT * 10000 - qT * 10000 / 2 ^ 53 \<le> yT"
  proof -
    have "y * T \<le> (q * 10000 + q * 10000 / 2 ^ 53) * T"
      using y(1) T by (intro mult_right_mono) simp_all
    then show "yT \<le> qT * 10000 + qT * 10000 / 2 ^ 53"
      by (simp add: qT_def yT_def distrib_right mult.commute mult.left_commute)
    have "(q * 10000 - q * 10000 / 2 ^ 53) * T \<le> y * T"
      using y(2) T by (intro mult_right_mono) simp_all
    then show "qT * 10000 - qT * 10000 / 2 ^ 53 \<le> yT"
      by (simp add: qT_def yT_def left_diff_distrib mult.commute mult.left_commute)
  qed
  have kT: "kT \<le> yT + T / 2" "yT - T / 2 < kT"
  proof -
    have "of_int k * T \<le> (y + 1 / 2) * T" using k(1) T by (intro mult_right_mono) simp_all
    then show "kT \<le> yT + T / 2" by (simp add: kT_def yT_def distrib_right)
    have "(y - 1 / 2) * T < of_int k * T" using k(2) T by (intro mult_strict_right_mono) simp_all
    then show "yT - T / 2 < kT" by (simp add: kT_def yT_def left_diff_distrib)
  qed
  have up: "2 * kT < 20000 * B + T + 1" and lo: "20000 * B - T - 1 < 2 * kT"
    using qT yT kT B by simp_all
  \<comment> \<open>both sides are integers\<close>
  have "2 * kT = of_int (2 * k * t)" by (simp add: kT_def T_def)
  moreover have "20000 * B + T + 1 = of_int (20000 * b + t + 1)"
    "20000 * B - T - 1 = of_int (20000 * b - t - 1)" by (simp_all add: B_def T_def)
  ultimately have "(of_int (2 * k * t) :: rat) < of_int (20000 * b + t + 1)"
    "(of_int (20000 * b - t - 1) :: rat) < of_int (2 * k * t)"
    using up lo by simp_all
  then have "2 * k * t < 20000 * b + t + 1" "20000 * b - t - 1 < 2 * k * t"
    by (simp_all only: of_int_less_iff)
  then have "2 * k * t \<le> 20000 * b + t" "20000 * b - t \<le> 2 * k * t" by simp_all
  then have "(of_int (2 * k * t) :: rat) \<le> of_int (20000 * b + t)"
    "(of_int (20000 * b - t) :: rat) \<le> of_int (2 * k * t)"
    by (simp_all only: of_int_le_iff)
  then have i: "2 * kT \<le> 20000 * B + T" "20000 * B - T \<le> 2 * kT"
    by (simp_all add: kT_def B_def T_def)
  have "(of_int k - 10000 * B / T) * T = kT - 10000 * B"
    using T by (simp add: kT_def left_diff_distrib)
  then have "\<bar>kT - 10000 * B\<bar> = \<bar>of_int k - 10000 * B / T\<bar> * \<bar>T\<bar>"
    by (metis abs_mult)
  then have "\<bar>of_int k - 10000 * B / T\<bar> * T = \<bar>kT - 10000 * B\<bar>"
    using T by simp
  also have "\<dots> \<le> T / 2" using i unfolding abs_le_iff by linarith
  finally have "\<bar>of_int k - 10000 * B / T\<bar> * T \<le> 1 / 2 * T" by simp
  then have "\<bar>of_int k - 10000 * B / T\<bar> \<le> 1 / 2"
    using T by (simp only: mult_le_cancel_right)
  then show ?thesis by (simp add: k_def B_def T_def)
qed

lemma rate_scaled_round4:
  assumes "0 \<le> b" and "b \<le> 100000000000" and "0 < t"
  shows "of_int (rate_scaled b t) / 10000 = round4_half_up (of_int b / of_int t) \<or>
         of_int b / of_int t = (of_int (rate_scaled b t) / 10000 + 1 / 20000 :: rat)"
proof -
  define k where "k = rate_scaled b t"
  define y :: rat where "y = 10000 * of_int b / of_int t"
  have n: "\<bar>of_int k - y\<bar> \<le> 1 / 2"
    unfolding k_def y_def using assms by (rule rate_scaled_nearest)
  have x: "of_int b / of_int t = y / 10000" by (simp add: y_def)
  show ?thesis
  proof (cases "of_int k = y - 1 / 2")
    case True
    then have "y = of_int k + 1 / 2" by linarith
    then have "y / 10000 = of_int k / 10000 + 1 / 20000"
      by (simp add: add_divide_distrib)
    then show ?thesis unfolding x k_def by simp
  next
    case False
    with n have "of_int k \<le> y + 1 / 2" "y + 1 / 2 < of_int k + 1"
      unfolding abs_le_iff by linarith+
    then have "\<lfloor>y + 1 / 2\<rfloor> = k" by (rule floor_unique)
    then have "round4_half_up (y / 10000) = of_int k / 10000"
      by (simp add: round4_half_up_def)
    then show ?thesis unfolding x k_def by simp
  qed
qed

lemma rates_cohort_update_f64:
  "conversion_rate (cohort_update_f64 e p s c) =
     rate_of (converted (cohort_update_f64 e p s c))
       (if total_trials (cohort_update_f64 e p s c) = 0 then 1
        else total_trials (cohort_update_f64 e p s c))"
  "cancel_rate (cohort_update_f64 e p s c) =
     rate_of (cancelled (cohort_update_f64 e p s c))
       (if total_trials (cohort_update_f64 e p s c) = 0 then 1
        else total_trials (cohort_update_f64 e p s c))"
  "billing_rate (cohort_update_f64 e p s c) =
     rate_of (billing_issue (cohort_update_f64 e p s c))
       (if total_trials (cohort_update_f64 e p s c) = 0 then 1
        else total_trials (cohort_update_f64 e p s c))"
  by (simp_all add: cohort_update_f64_def compute_rates_def Let_def)

lemma total_or_1:
  "0 \<le> (t::int) \<Longrightarrow> (if t = 0 then 1 else t) = max t 1"
  by simp


lemma rates_after_transition_f64:
  fixes c0 :: cohort_doc
  assumes "ts \<noteq> []"
  defines "c \<equiv> run_transitions_f64 c0 ts"
  defines "t \<equiv> (if total_trials c = 0 then 1 else total_trials c)"
  shows "conversion_rate c = rate_of (converted c) t"
    and "cancel_rate c = rate_of (cancelled c) t"
    and "billing_rate c = rate_of (billing_issue c) t"
proof -
  from assms(1) obtain us u where ts: "ts = us @ [u]"
    by (metis rev_exhaust)
  obtain e p s where u: "u = (e, p, s)" by (cases u)
  have c: "c = cohort_update_f64 e p s (run_transitions_f64 c0 us)"
    by (simp add: c_def ts u run_transitions_f64_append)
  show "conversion_rate c = rate_of (converted c) t"
    and "cancel_rate c = rate_of (cancelled c) t"
    and "billing_rate c = rate_of (billing_issue c) t"
    unfolding t_def c by (rule rates_cohort_update_f64)+
qed

lemma run_new_trials:
  "total_trials (run_transitions c
      (replicate n (Some ''INITIAL_PURCHASE'', None, ''Still in Trial''))) = total_trials c + int n \<and>
   in_trial (run_transitions c
      (replicate n (Some ''INITIAL_PURCHASE'', None, ''Still in Trial''))) = in_trial c + int n \<and>
   converted (run_transitions c
      (replicate n (Some ''INITIAL_PURCHASE'', None, ''Still in Trial''))) = converted c"
proof (induction n arbitrary: c)
  case 0
  then show ?case by simp
next
  case (Suc n)
  from Suc.IH [of "cohort_update (Some ''INITIAL_PURCHASE'') None ''Still in Trial'' c"]
  show ?case
    by (simp add: total_trials_cohort_update in_trial_cohort_update converted_cohort_update)
qed

lemma run_conversions:
  "int n \<le> in_trial c \<Longrightarrow>
   total_trials (run_transitions c
      (replicate n (Some ''RENEWAL'', Some ''Still in Trial'', ''Converted''))) = total_trials c \<and>
   converted (run_transitions c
      (replicate n (Some ''RENEWAL'', Some ''Still in Trial'', ''Converted''))) = converted c + int n"
proof (induction n arbitrary: c)
  case 0
  then show ?case by simp
next
  case (Suc n)
  let ?c = "cohort_update (Some ''RENEWAL'') (Some ''Still in Trial'') ''Converted'' c"
  have i: "in_trial ?c = in_trial c - 1"
    using Suc.prems by (simp add: in_trial_cohort_update)
  have "int n \<le> in_trial ?c" using Suc.prems unfolding i by simp
  from Suc.IH [OF this] show ?case
    by (simp add: total_trials_cohort_update converted_cohort_update)
qed

lemma binary64_big_quot:
  "binary64 (286867857037 / 350116381323) = 7380048709372031 / 9007199254740992"
  using binary64_eval [of "1 / 9007199254740992" "- 53" "286867857037 / 350116381323"
      7380048709372031]
  by (simp add: power_int_minus)

lemma binary64_big_scaled:
  "binary64 (7380048709372031 / 9007199254740992 * 10000) = 16387 / 2"
  using binary64_eval [of "1 / 549755813888" "- 39"
      "7380048709372031 / 9007199254740992 * 10000" 4504424261091328]
  by (simp add: power_int_minus)

lemma rate_scaled_big: "rate_scaled 286867857037 350116381323 = 8194"
proof -
  have "\<lfloor>(16387 :: rat) / 2 + 1 / 2\<rfloor> = 8194"
    by (rule floor_unique) simp_all
  then show ?thesis
    unfolding rate_scaled_def Math_round_def
    by (simp only: of_int_numeral binary64_big_quot binary64_big_scaled)
qed

lemma binary64_8193: "binary64 (8193 / 10000) = 7379598349409295 / 9007199254740992"
  using binary64_eval [of "1 / 9007199254740992" "- 53" "8193 / 10000" 7379598349409295]
  by (simp add: power_int_minus)

lemma binary64_8194: "binary64 (8194 / 10000) = 7380499069334769 / 9007199254740992"
  using binary64_eval [of "1 / 9007199254740992" "- 53" "8194 / 10000" 7380499069334769]
  by (simp add: power_int_minus)

lemma run_trials_conversions:
  fixes n m :: nat
  assumes "m \<le> n" and "0 < n" and "int n + int m \<le> 9007199254740991"
  defines "ts \<equiv> replicate n (Some ''INITIAL_PURCHASE'', None, ''Still in Trial'')
                 @ replicate m (Some ''RENEWAL'', Some ''Still in Trial'', ''Converted'')"
  shows "total_trials (run_transitions_f64 (zeroed d) ts) = int n"
    and "converted (run_transitions_f64 (zeroed d) ts) = int m"
    and "conversion_rate (run_transitions_f64 (zeroed d) ts) = rate_of (int m) (int n)"
proof -
  let ?c = "run_transitions (zeroed d) (replicate n (Some ''INITIAL_PURCHASE'', None, ''Still in Trial''))"
  have l: "int (length ts) \<le> 9007199254740991" using assms(3) by (simp add: ts_def)
  have x: "run_transitions_f64 (zeroed d) ts = run_transitions (zeroed d) ts"
    using l by (rule run_from_zeroed_exact)
  have a: "total_trials ?c = int n" "in_trial ?c = int n" "converted ?c = 0"
    using run_new_trials [of "zeroed d" n] by (simp_all add: zeroed_def)
  have "int m \<le> in_trial ?c" unfolding a using assms(1) by simp
  from run_conversions [OF this] a
  have b: "total_trials (run_transitions (zeroed d) ts) = int n"
    "converted (run_transitions (zeroed d) ts) = int m"
    by (simp_all add: ts_def run_transitions_append)
  show t: "total_trials (run_transitions_f64 (zeroed d) ts) = int n"
    and c: "converted (run_transitions_f64 (zeroed d) ts) = int m"
    unfolding x by (rule b)+
  have "ts \<noteq> []" using assms(2) by (simp add: ts_def)
  from rates_after_transition_f64(1) [OF this, of "zeroed d"] assms(2)
  show "conversion_rate (run_transitions_f64 (zeroed d) ts) = rate_of (int m) (int n)"
    unfolding t c by simp
qed

lemma run_800_57:
  "total_trials (run_transitions_f64 (zeroed d)
      (replicate 800 (Some ''INITIAL_PURCHASE'', None, ''Still in Trial'')
       @ replicate 57 (Some ''RENEWAL'', Some ''Still in Trial'', ''Converted''))) = 800"
  "converted (run_transitions_f64 (zeroed d)
      (replicate 800 (Some ''INITIAL_PURCHASE'', None, ''Still in Trial'')
       @ replicate 57 (Some ''RENEWAL'', Some ''Still in Trial'', ''Converted''))) = 57"
  "conversion_rate (run_transitions_f64 (zeroed d)
      (replicate 800 (Some ''INITIAL_PURCHASE'', None, ''Still in Trial'')
       @ replicate 57 (Some ''RENEWAL'', Some ''Still in Trial'', ''Converted''))) = rate_of 57 800"
  using run_trials_conversions [of 57 800 d] by simp_all

lemma run_big:
  "total_trials (run_transitions_f64 (zeroed d)
      (replicate 350116381323 (Some ''INITIAL_PURCHASE'', None, ''Still in Trial'')
       @ replicate 286867857037 (Some ''RENEWAL'', Some ''Still in Trial'', ''Converted'')))
     = 350116381323"
  "converted (run_transitions_f64 (zeroed d)
      (replicate 350116381323 (Some ''INITIAL_PURCHASE'', None, ''Still in Trial'')
       @ replicate 286867857037 (Some ''RENEWAL'', Some ''Still in Trial'', ''Converted'')))
     = 286867857037"
  "conversion_rate (run_transitions_f64 (zeroed d)
      (replicate 350116381323 (Some ''INITIAL_PURCHASE'', None, ''Still in Trial'')
       @ replicate 286867857037 (Some ''RENEWAL'', Some ''Still in Trial'', ''Converted'')))
     = rate_of 286867857037 350116381323"
  using run_trials_conversions [of 286867857037 350116381323 d] by simp_all

text \<open>
  Claim C3, as stated, fails in three ways. Two RENEWAL events of users with no previous
  status leave \<open>converted = 2\<close> and \<open>total_trials = 0\<close>, and the stored conversion rate
  is 2. After 800 new trials and 57 conversions the quotient \<open>57 / 800 = 0.07125\<close> rounds
  half-up to \<open>0.0713\<close>, but in binary64 \<open>57 / 800 * 10000\<close> is \<open>712.4999999999999\<close> and
  the stored rate is the double \<open>0.0712\<close>. And after 350116381323 new trials and
  286867857037 conversions the quotient, \<open>0.8193499999999998\<close>, is no tie and rounds to
  \<open>0.8193\<close>, but in binary64 the quotient times 10000 is \<open>8193.5\<close> and the stored rate
  is the double \<open>0.8194\<close>.
\<close>

theorem stored_rate_counterexample:
  "conversion_rate (run_transitions_f64 (zeroed ''2023-11-14'')
      [(Some ''RENEWAL'', None, ''Converted''), (Some ''RENEWAL'', None, ''Converted'')]) = 2 \<and>
   \<not> conversion_rate (run_transitions_f64 (zeroed ''2023-11-14'')
      [(Some ''RENEWAL'', None, ''Converted''), (Some ''RENEWAL'', None, ''Converted'')]) \<le> 1 \<and>
   total_trials (run_transitions_f64 (zeroed ''2023-11-14'')
      (replicate 800 (Some ''INITIAL_PURCHASE'', None, ''Still in Trial'')
       @ replicate 57 (Some ''RENEWAL'', Some ''Still in Trial'', ''Converted''))) = 800 \<and>
   converted (run_transitions_f64 (zeroed ''2023-11-14'')
      (replicate 800 (Some ''INITIAL_PURCHASE'', None, ''Still in Trial'')
       @ replicate 57 (Some ''RENEWAL'', Some ''Still in Trial'', ''Converted''))) = 57 \<and>
   round4_half_up (57 / 800) = 713 / 10000 \<and>
   conversion_rate (run_transitions_f64 (zeroed ''2023-11-14'')
      (replicate 800 (Some ''INITIAL_PURCHASE'', None, ''Still in Trial'')
       @ replicate 57 (Some ''RENEWAL'', Some ''Still in Trial'', ''Converted''))) = binary64 (712 / 10000) \<and>
   conversion_rate (run_transitions_f64 (zeroed ''2023-11-14'')
      (replicate 800 (Some ''INITIAL_PURCHASE'', None, ''Still in Trial'')
       @ replicate 57 (Some ''RENEWAL'', Some ''Still in Trial'', ''Converted''))) \<noteq> binary64 (713 / 10000) \<and>
   conversion_rate (run_transitions_f64 (zeroed ''2023-11-14'')
      (replicate 800 (Some ''INITIAL_PURCHASE'', None, ''Still in Trial'')
       @ replicate 57 (Some ''RENEWAL'', Some ''Still in Trial'', ''Converted''))) \<noteq> 713 / 10000 \<and>
   total_trials (run_transitions_f64 (zeroed ''2023-11-14'')
      (replicate 350116381323 (Some ''INITIAL_PURCHASE'', None, ''Still in Trial'')
       @ replicate 286867857037 (Some ''RENEWAL'', Some ''Still in Trial'', ''Converted'')))
     = 350116381323 \<and>
   converted (run_transitions_f64 (zeroed ''2023-11-14'')
      (replicate 350116381323 (Some ''INITIAL_PURCHASE'', None, ''Still in Trial'')
       @ replicate 286867857037 (Some ''RENEWAL'', Some ''Still in Trial'', ''Converted'')))
     = 286867857037 \<and>
   round4_half_up (286867857037 / 350116381323) = 8193 / 10000 \<and>
   (286867857037 / 350116381323 :: rat) \<noteq> 8193 / 10000 + 1 / 20000 \<and>
   conversion_rate (run_transitions_f64 (zeroed ''2023-11-14'')
      (replicate 350116381323 (Some ''INITIAL_PURCHASE'', None, ''Still in Trial'')
       @ replicate 286867857037 (Some ''RENEWAL'', Some ''Still in Trial'', ''Converted'')))
     = binary64 (8194 / 10000) \<and>
   conversion_rate (run_transitions_f64 (zeroed ''2023-11-14'')
      (replicate 350116381323 (Some ''INITIAL_PURCHASE'', None, ''Still in Trial'')
       @ replicate 286867857037 (Some ''RENEWAL'', Some ''Still in Trial'', ''Converted'')))
     \<noteq> binary64 (8193 / 10000)"
proof -
  let ?two = "run_transitions_f64 (zeroed ''2023-11-14'')
      [(Some ''RENEWAL'', None, ''Converted''), (Some ''RENEWAL'', None, ''Converted'')]"
  let ?c = "run_transitions_f64 (zeroed ''2023-11-14'')
      (replicate 800 (Some ''INITIAL_PURCHASE'', None, ''Still in Trial'')
       @ replicate 57 (Some ''RENEWAL'', Some ''Still in Trial'', ''Converted''))"
  let ?big = "run_transitions_f64 (zeroed ''2023-11-14'')
      (replicate 350116381323 (Some ''INITIAL_PURCHASE'', None, ''Still in Trial'')
       @ replicate 286867857037 (Some ''RENEWAL'', Some ''Still in Trial'', ''Converted''))"
  have two: "conversion_rate ?two = 2"
    by (simp add: cohort_update_f64_defs zeroed_def Let_def f64_int_exact rate_of_small)
  then have two': "\<not> conversion_rate ?two \<le> 1" by simp
  have t: "total_trials ?c = 800" and b: "converted ?c = 57"
    and r: "conversion_rate ?c = rate_of 57 800"
    by (rule run_800_57)+
  have h: "round4_half_up (57 / 800) = 713 / 10000"
    by (simp add: round4_half_up_def)
  have r1: "conversion_rate ?c = binary64 (712 / 10000)"
    unfolding r rate_of_57_800 binary64_712 by (rule refl)
  have r2: "conversion_rate ?c \<noteq> binary64 (713 / 10000)"
    unfolding r rate_of_57_800 binary64_713 by simp
  have r3: "conversion_rate ?c \<noteq> 713 / 10000"
    unfolding r rate_of_57_800 by simp
  have T: "total_trials ?big = 350116381323" and B: "converted ?big = 286867857037"
    and R: "conversion_rate ?big = rate_of 286867857037 350116381323"
    by (rule run_big)+
  have "\<lfloor>(286867857037 / 350116381323 :: rat) * 10000 + 1 / 2\<rfloor> = 8193"
    by (rule floor_unique) simp_all
  then have H: "round4_half_up (286867857037 / 350116381323) = 8193 / 10000"
    unfolding round4_half_up_def by simp
  have N: "(286867857037 / 350116381323 :: rat) \<noteq> 8193 / 10000 + 1 / 20000"
    by simp
  have R1: "conversion_rate ?big = binary64 (8194 / 10000)"
    unfolding R rate_of_def rate_scaled_big of_int_numeral by (rule refl)
  have R2: "conversion_rate ?big \<noteq> binary64 (8193 / 10000)"
    unfolding R1 binary64_8194 binary64_8193 by simp
  from two two' t b h r1 r2 r3 T B H N R1 R2 show ?thesis by blast
qed

text \<open>
  Claim C3, amended. After every webhook cohort transaction, in every cohort state reached
  from the zeroed record by at most \<open>10^11\<close> transactions, each of the three stored rates
  is the double nearest to \<open>k / 10000\<close> for an integer \<open>k\<close>, where \<open>k / 10000\<close> is the
  corresponding bucket counter divided by \<open>max(total_trials, 1)\<close> and rounded to 4 decimal
  places half-up, except that it may be the 4-decimal number below when the quotient lies
  exactly half-way between two of them. Every rate is at least 0. A rate is at most 1
  whenever its bucket counter is at most \<open>max(total_trials, 1)\<close>, which is the case for all
  three when every transaction of the sequence is a new trial or has a previous status
  whose bucket holds at least 1.
\<close>

theorem rates_after_every_transaction:
  "ts \<noteq> [] \<Longrightarrow> int (length ts) \<le> 100000000000 \<Longrightarrow>
     (let c = run_transitions_f64 (zeroed d) ts; t = max (total_trials c) 1 in
        (\<exists>k. conversion_rate c = binary64 (of_int k / 10000) \<and>
           (of_int k / 10000 = round4_half_up (of_int (converted c) / of_int t) \<or>
            of_int (converted c) / of_int t = (of_int k / 10000 + 1 / 20000 :: rat))) \<and>
        (\<exists>k. cancel_rate c = binary64 (of_int k / 10000) \<and>
           (of_int k / 10000 = round4_half_up (of_int (cancelled c) / of_int t) \<or>
            of_int (cancelled c) / of_int t = (of_int k / 10000 + 1 / 20000 :: rat))) \<and>
        (\<exists>k. billing_rate c = binary64 (of_int k / 10000) \<and>
           (of_int k / 10000 = round4_half_up (of_int (billing_issue c) / of_int t) \<or>
            of_int (billing_issue c) / of_int t = (of_int k / 10000 + 1 / 20000 :: rat))) \<and>
        0 \<le> conversion_rate c \<and> 0 \<le> cancel_rate c \<and> 0 \<le> billing_rate c \<and>
        (converted c \<le> t \<longrightarrow> conversion_rate c \<le> 1) \<and>
        (cancelled c \<le> t \<longrightarrow> cancel_rate c \<le> 1) \<and>
        (billing_issue c \<le> t \<longrightarrow> billing_rate c \<le> 1) \<and>
        (accounted_run (zeroed d) ts \<longrightarrow>
           conversion_rate c \<le> 1 \<and> cancel_rate c \<le> 1 \<and> billing_rate c \<le> 1))"
proof -
  assume ne: "ts \<noteq> []" and len: "int (length ts) \<le> 100000000000"
  define c where "c = run_transitions_f64 (zeroed d) ts"
  define t where "t = max (total_trials c) 1"
  have l: "int (length ts) \<le> 9007199254740991" using len by simp
  have x: "c = run_transitions (zeroed d) ts"
    unfolding c_def using l by (rule run_from_zeroed_exact)
  have w: "counters_within 0 (int (length ts)) c"
    unfolding x using l by (rule run_from_zeroed_exact)
  have lo: "0 \<le> total_trials c" "0 \<le> converted c" "0 \<le> cancelled c" "0 \<le> billing_issue c"
    using w by (simp_all add: counters_within_def)
  have hi: "converted c \<le> 100000000000" "cancelled c \<le> 100000000000"
    "billing_issue c \<le> 100000000000"
    using w len by (simp_all add: counters_within_def)
  have t: "0 < t" by (simp add: t_def)
  have m: "(if total_trials c = 0 then 1 else total_trials c) = t"
    unfolding t_def using lo(1) by (rule total_or_1)
  have r: "conversion_rate c = rate_of (converted c) t"
    "cancel_rate c = rate_of (cancelled c) t"
    "billing_rate c = rate_of (billing_issue c) t"
    using rates_after_transition_f64 [OF ne, of "zeroed d"]
    unfolding c_def [symmetric] m by simp_all
  have e1: "\<exists>k. conversion_rate c = binary64 (of_int k / 10000) \<and>
           (of_int k / 10000 = round4_half_up (of_int (converted c) / of_int t) \<or>
            of_int (converted c) / of_int t = (of_int k / 10000 + 1 / 20000 :: rat))"
    using rate_scaled_round4 [OF lo(2) hi(1) t] unfolding r(1) rate_of_def by blast
  have e2: "\<exists>k. cancel_rate c = binary64 (of_int k / 10000) \<and>
           (of_int k / 10000 = round4_half_up (of_int (cancelled c) / of_int t) \<or>
            of_int (cancelled c) / of_int t = (of_int k / 10000 + 1 / 20000 :: rat))"
    using rate_scaled_round4 [OF lo(3) hi(2) t] unfolding r(2) rate_of_def by blast
  have e3: "\<exists>k. billing_rate c = binary64 (of_int k / 10000) \<and>
           (of_int k / 10000 = round4_half_up (of_int (billing_issue c) / of_int t) \<or>
            of_int (billing_issue c) / of_int t = (of_int k / 10000 + 1 / 20000 :: rat))"
    using rate_scaled_round4 [OF lo(4) hi(3) t] unfolding r(3) rate_of_def by blast
  have nn: "0 \<le> conversion_rate c" "0 \<le> cancel_rate c" "0 \<le> billing_rate c"
    unfolding r using lo t by (simp_all add: rate_of_nonneg)
  have le: "converted c \<le> t \<Longrightarrow> conversion_rate c \<le> 1"
    "cancelled c \<le> t \<Longrightarrow> cancel_rate c \<le> 1"
    "billing_issue c \<le> t \<Longrightarrow> billing_rate c \<le> 1"
    unfolding r using lo t by (simp_all add: rate_of_le_1)
  have acc: "conversion_rate c \<le> 1 \<and> cancel_rate c \<le> 1 \<and> billing_rate c \<le> 1"
    if a: "accounted_run (zeroed d) ts"
  proof -
    have "bucket_sum c \<le> total_trials c"
      unfolding x using a by (rule bucket_sum_run) (simp add: bucket_sum_def zeroed_def)
    then have s: "in_trial c + converted c + cancelled c + billing_issue c \<le> total_trials c"
      by (simp add: bucket_sum_def)
    have i: "0 \<le> in_trial c" using w by (simp add: counters_within_def)
    have "total_trials c \<le> t" by (simp add: t_def)
    with s i lo have "converted c \<le> t" "cancelled c \<le> t" "billing_issue c \<le> t"
      by linarith+
    with le show ?thesis by blast
  qed
  from e1 e2 e3 nn le acc show ?thesis
    unfolding Let_def c_def [symmetric] t_def [symmetric] by blast
qed

theorem rates_after_every_transaction_witness:
  "[(Some ''INITIAL_PURCHASE'', None, ''Still in Trial''),
    (Some ''INITIAL_PURCHASE'', None, ''Still in Trial''),
    (Some ''INITIAL_PURCHASE'', None, ''Still in Trial''),
    (Some ''RENEWAL'', Some ''Still in Trial'', ''Converted'')] \<noteq> ([] :: transition list) \<and>
   int (length [(Some ''INITIAL_PURCHASE'', None, ''Still in Trial''),
    (Some ''INITIAL_PURCHASE'', None, ''Still in Trial''),
    (Some ''INITIAL_PURCHASE'', None, ''Still in Trial''),
    (Some ''RENEWAL'', Some ''Still in Trial'', ''Converted'') :: transition]) \<le> 100000000000 \<and>
   accounted_run (zeroed ''2023-11-14'')
     [(Some ''INITIAL_PURCHASE'', None, ''Still in Trial''),
      (Some ''INITIAL_PURCHASE'', None, ''Still in Trial''),
      (Some ''INITIAL_PURCHASE'', None, ''Still in Trial''),
      (Some ''RENEWAL'', Some ''Still in Trial'', ''Converted'')] \<and>
   0 \<le> conversion_rate (run_transitions_f64 (zeroed ''2023-11-14'')
     [(Some ''INITIAL_PURCHASE'', None, ''Still in Trial''),
      (Some ''INITIAL_PURCHASE'', None, ''Still in Trial''),
      (Some ''INITIAL_PURCHASE'', None, ''Still in Trial''),
      (Some ''RENEWAL'', Some ''Still in Trial'', ''Converted'')]) \<and>
   conversion_rate (run_transitions_f64 (zeroed ''2023-11-14'')
     [(Some ''INITIAL_PURCHASE'', None, ''Still in Trial''),
      (Some ''INITIAL_PURCHASE'', None, ''Still in Trial''),
      (Some ''INITIAL_PURCHASE'', None, ''Still in Trial''),
      (Some ''RENEWAL'', Some ''Still in Trial'', ''Converted'')]) \<le> 1"
proof -
  let ?ts = "[(Some ''INITIAL_PURCHASE'', None, ''Still in Trial''),
      (Some ''INITIAL_PURCHASE'', None, ''Still in Trial''),
      (Some ''INITIAL_PURCHASE'', None, ''Still in Trial''),
      (Some ''RENEWAL'', Some ''Still in Trial'', ''Converted'')] :: transition list"
  have h: "?ts \<noteq> []" by simp
  have l: "int (length ?ts) \<le> 100000000000" by simp
  have a: "accounted_run (zeroed ''2023-11-14'') ?ts"
    by (simp add: accounted_def bucket_of_def cohort_update_defs zeroed_def Let_def)
  from h l a rates_after_every_transaction [OF h l, of "''2023-11-14''"] show ?thesis
    unfolding Let_def by blast
qed

section \<open>Properties of the webhook handler\<close>

lemma env_sandbox_iff:
  "or_default x ''PRODUCTION'' = ''SANDBOX'' \<longleftrightarrow> x = Some ''SANDBOX''"
  by (cases x) (auto simp: or_default_def)

lemma or_default_None: "or_default None d = d"
  by (simp add: or_default_def)

lemma fst_record_event_cases:
  "fst (record_event now appSlug uid et pid st td db) =
     Json 200 [(''status'', ''ok''), (''app'', appSlug), (''classification'', st)] \<or>
   (\<exists>msg. fst (record_event now appSlug uid et pid st td db) =
     Json 500 [(''status'', ''error''), (''message'', msg)])"
  by (simp add: record_event_def Let_def split: option.splits)

lemma record_event_ok:
  assumes "fst (record_event now appSlug uid et pid st td db) =
     Json 200 [(''status'', ''ok''), (''app'', a), (''classification'', s)]"
  shows "a = appSlug" and "s = st"
    and "doc_error db (''apps/'' @ appSlug @ ''/users/'' @ uid) = None"
proof -
  show "doc_error db (''apps/'' @ appSlug @ ''/users/'' @ uid) = None"
    using assms by (cases "doc_error db (''apps/'' @ appSlug @ ''/users/'' @ uid)")
      (simp_all add: record_event_def)
  from fst_record_event_cases [of now appSlug uid et pid st td db] assms
  show "a = appSlug" and "s = st" by auto
qed

lemma record_event_accepted:
  assumes "\<forall>p. doc_error db p = None"
  shows "fst (record_event now appSlug uid et pid st td db) =
     Json 200 [(''status'', ''ok''), (''app'', appSlug), (''classification'', st)]"
  using assms by (simp add: record_event_def Let_def split: option.splits)

lemma users_record_event:
  assumes "doc_error db (''apps/'' @ appSlug @ ''/users/'' @ uid) = None"
  shows "users (snd (record_event now appSlug uid et pid st td db)) (appSlug, uid) =
     Some \<lparr>status = Some st, product = Some pid,
           trial_start_date =
             (case users db (appSlug, uid) of
                None \<Rightarrow> td
              | Some u \<Rightarrow> if truthy_str (trial_start_date u) then trial_start_date u else td),
           last_event = et, updated_at = Some now\<rparr>"
  using assms by (simp add: record_event_def Let_def split: option.splits)

lemma users_record_event_other:
  assumes "k \<noteq> (appSlug, uid)"
  shows "users (snd (record_event now appSlug uid et pid st td db)) k = users db k"
  using assms by (simp add: record_event_def Let_def split: option.splits)

lemma handle_event_sandbox:
  "environment ev = Some ''SANDBOX'' \<Longrightarrow>
     handle_event now p ev db = (Json 200 [(''status'', ''skipped''), (''reason'', ''sandbox'')], db)"
  by (simp add: handle_event_def Let_def env_sandbox_iff)

lemma handle_event_pipeline:
  assumes "environment ev \<noteq> Some ''SANDBOX''"
  shows "handle_event now p ev db =
     (case appUserId_of ev of
        None \<Rightarrow> (Json 400 [(''status'', ''error''), (''reason'', ''missing app_user_id'')], db)
      | Some uid \<Rightarrow>
         (case resolveApp (or_default (product_id ev) []) (pathSlug_of p) of
            None \<Rightarrow> (Json 200 [(''status'', ''skipped''), (''reason'', ''unknown_app'')], db)
          | Some appSlug \<Rightarrow>
             (case classifyFromEvent (etype ev) (or_default (cancel_reason ev) [])
                     (or_default (period_type ev) []) of
                None \<Rightarrow>
                  (Json 200 [(''status'', ''skipped''), (''reason'', ''unhandled_event_type'')], db)
              | Some newStatus \<Rightarrow>
                  record_event now appSlug uid (etype ev) (or_default (product_id ev) [])
                    newStatus (msToDateKey (purchasedAtMs_of ev)) db)))"
  using assms by (simp add: handle_event_def Let_def env_sandbox_iff)

lemma handle_event_not_sandbox:
  assumes "environment ev \<noteq> Some ''SANDBOX''"
  shows "fst (handle_event now p ev db) \<noteq> Json 200 [(''status'', ''skipped''), (''reason'', ''sandbox'')]"
proof -
  have "fst (record_event now a u e q s t db)
      \<noteq> Json 200 [(''status'', ''skipped''), (''reason'', ''sandbox'')]" for a u e q s t
    using fst_record_event_cases [of now a u e q s t db] by auto
  then show ?thesis
    unfolding handle_event_pipeline [OF assms] by (simp split: option.splits)
qed

lemma handle_event_environment_irrelevant:
  assumes "environment ev \<noteq> Some ''SANDBOX''"
  shows "handle_event now p (ev\<lparr>environment := None\<rparr>) db = handle_event now p ev db"
  using assms
  by (simp add: handle_event_def Let_def env_sandbox_iff appUserId_of_def purchasedAtMs_of_def
      or_default_None cong: option.case_cong)

lemma handle_event_missing_user:
  assumes "appUserId_of ev = None" and "environment ev \<noteq> Some ''SANDBOX''"
  shows "handle_event now p ev db =
     (Json 400 [(''status'', ''error''), (''reason'', ''missing app_user_id'')], db)"
  using assms by (simp add: handle_event_def Let_def env_sandbox_iff)

lemma handle_event_ok:
  assumes "fst (handle_event now p ev db) =
      Json 200 [(''status'', ''ok''), (''app'', appSlug), (''classification'', st)]"
    and "appUserId_of ev = Some uid"
  shows "handle_event now p ev db =
      record_event now appSlug uid (etype ev) (or_default (product_id ev) []) st
        (msToDateKey (purchasedAtMs_of ev)) db"
proof -
  have e: "environment ev \<noteq> Some ''SANDBOX''"
    using assms(1) handle_event_sandbox [of ev now p db] by auto
  obtain a where a: "resolveApp (or_default (product_id ev) []) (pathSlug_of p) = Some a"
    using assms unfolding handle_event_pipeline [OF e]
    by (cases "resolveApp (or_default (product_id ev) []) (pathSlug_of p)") simp_all
  obtain s where s: "classifyFromEvent (etype ev) (or_default (cancel_reason ev) [])
      (or_default (period_type ev) []) = Some s"
    using assms a unfolding handle_event_pipeline [OF e]
    by (cases "classifyFromEvent (etype ev) (or_default (cancel_reason ev) [])
      (or_default (period_type ev) [])") simp_all
  have h: "handle_event now p ev db =
      record_event now a uid (etype ev) (or_default (product_id ev) []) s
        (msToDateKey (purchasedAtMs_of ev)) db"
    unfolding handle_event_pipeline [OF e] by (simp add: assms(2) a s)
  from assms(1) have "appSlug = a" "st = s"
    unfolding h by (rule record_event_ok)+
  with h show ?thesis by simp
qed

lemma webhook_handle_event:
  "req_method req = ''POST'' \<Longrightarrow> authorized secret req \<Longrightarrow>
     webhook secret now req db = handle_event now (path req) (body req) db"
  by (simp add: webhook_def)

lemma webhook_ok:
  assumes "fst (webhook secret now req db) =
      Json 200 [(''status'', ''ok''), (''app'', appSlug), (''classification'', st)]"
    and "appUserId_of (body req) = Some uid"
  shows "webhook secret now req db =
      record_event now appSlug uid (etype (body req)) (or_default (product_id (body req)) []) st
        (msToDateKey (purchasedAtMs_of (body req))) db"
proof -
  from assms(1) have "req_method req = ''POST''" "authorized secret req"
    by (auto simp: webhook_def split: if_splits)
  then have w: "webhook secret now req db = handle_event now (path req) (body req) db"
    by (rule webhook_handle_event)
  from assms show ?thesis unfolding w by (rule handle_event_ok)
qed

lemma msToDateKey_nonempty: "msToDateKey ms \<noteq> Some []"
  by (auto simp: msToDateKey_def Let_def split: option.splits)

text \<open>
  Claim C2, as stated, fails: a POST request with no user identifier and a production
  environment is answered 400 with status \<open>error\<close>, not 200 with status \<open>skipped\<close>.
\<close>

theorem missing_user_id_counterexample:
  "webhook [] 0
     \<lparr>req_method = ''POST'', authorization = None, path = ''/girlwalk'',
      body = \<lparr>etype = Some ''INITIAL_PURCHASE'', app_user_id = None,
              original_app_user_id = None, product_id = Some ''com.tangentapps.girlwalk.pro'',
              period_type = Some ''TRIAL'', cancel_reason = None,
              purchased_at_ms = Some 1700000000000, environment = Some ''PRODUCTION''\<rparr>\<rparr>
     empty_store
   = (Json 400 [(''status'', ''error''), (''reason'', ''missing app_user_id'')], empty_store) \<and>
   status_code (Json 400 [(''status'', ''error''), (''reason'', ''missing app_user_id'')]) \<noteq> 200 \<and>
   json_field ''status'' (Json 400 [(''status'', ''error''), (''reason'', ''missing app_user_id'')])
     \<noteq> Some ''skipped''"
  by (simp add: webhook_def authorized_def handle_event_def appUserId_of_def or_default_def Let_def)

text \<open>
  Claim C2, amended. For every POST webhook request that passes the bearer check, whose
  extracted user identifier is absent (neither \<open>app_user_id\<close> nor \<open>original_app_user_id\<close>
  present) and whose environment is not the sandbox marker, the handler responds with HTTP
  400, status \<open>error\<close> and reason \<open>missing app_user_id\<close>, and performs no store write.
\<close>

theorem missing_user_id_rejected:
  "req_method req = ''POST'' \<Longrightarrow> authorized secret req \<Longrightarrow>
   \<not> truthy_str (app_user_id (body req)) \<Longrightarrow>
   \<not> truthy_str (original_app_user_id (body req)) \<Longrightarrow>
   environment (body req) \<noteq> Some ''SANDBOX'' \<Longrightarrow>
     webhook secret now req db =
       (Json 400 [(''status'', ''error''), (''reason'', ''missing app_user_id'')], db)"
proof -
  assume m: "req_method req = ''POST''" and a: "authorized secret req"
    and u: "\<not> truthy_str (app_user_id (body req))"
      "\<not> truthy_str (original_app_user_id (body req))"
    and e: "environment (body req) \<noteq> Some ''SANDBOX''"
  from u have "appUserId_of (body req) = None"
    by (simp add: appUserId_of_def)
  then have "handle_event now (path req) (body req) db =
      (Json 400 [(''status'', ''error''), (''reason'', ''missing app_user_id'')], db)"
    using e by (rule handle_event_missing_user)
  with m a show ?thesis by (simp add: webhook_handle_event)
qed

theorem missing_user_id_rejected_witness:
  "webhook ''s3cret'' 0
     \<lparr>req_method = ''POST'', authorization = Some ''Bearer s3cret'', path = ''/girltalk'',
      body = \<lparr>etype = Some ''RENEWAL'', app_user_id = Some [],
              original_app_user_id = None, product_id = None,
              period_type = None, cancel_reason = None,
              purchased_at_ms = None, environment = None\<rparr>\<rparr>
     empty_store
   = (Json 400 [(''status'', ''error''), (''reason'', ''missing app_user_id'')], empty_store)"
  by (rule missing_user_id_rejected) (simp_all add: authorized_def or_default_def)

text \<open>
  Claim C10, as stated, fails: when a secret is configured, a POST request whose
  environment is \<open>SANDBOX\<close> and whose \<open>authorization\<close> header is missing is answered 401
  by the bearer check, which runs before the environment is read.
\<close>

theorem sandbox_unauthorized_counterexample:
  "webhook ''s3cret'' 5
     \<lparr>req_method = ''POST'', authorization = None, path = ''/girlwalk'',
      body = \<lparr>etype = Some ''INITIAL_PURCHASE'', app_user_id = Some ''u1'',
              original_app_user_id = None, product_id = None,
              period_type = Some ''TRIAL'', cancel_reason = None,
              purchased_at_ms = None, environment = Some ''SANDBOX''\<rparr>\<rparr>
     empty_store
   = (Send 401 ''Unauthorized'', empty_store) \<and>
   status_code (Send 401 ''Unauthorized'') \<noteq> 200 \<and>
   json_field ''status'' (Send 401 ''Unauthorized'') \<noteq> Some ''skipped''"
  by (simp add: webhook_def authorized_def or_default_def)

text \<open>
  Claim C10, amended. For a POST request that passes the bearer check, the sandbox skip is
  triggered by the exact environment string \<open>SANDBOX\<close> and by nothing else. With that
  string the answer is 200 \<open>skipped\<close> (reason \<open>sandbox\<close>) and the store is not written.
  With the field absent or holding any other value the answer is not the sandbox skip;
  response and store are those of the same request without an environment field (which is
  processed as PRODUCTION), and they are the outcome of the processing steps: 400 for a
  missing user id, 200 \<open>skipped\<close> for an unknown app or an unhandled event type, and
  otherwise the writes of the classified event. In particular, when the user id is present,
  the app resolves, the event type is classified and the store client accepts every document
  path, the answer is 200 \<open>ok\<close> with the app and the classification, and the user document
  holds the new status.
\<close>

theorem sandbox_skip_exact:
  "req_method req = ''POST'' \<Longrightarrow> authorized secret req \<Longrightarrow>
     (environment (body req) = Some ''SANDBOX'' \<longrightarrow>
        webhook secret now req db =
          (Json 200 [(''status'', ''skipped''), (''reason'', ''sandbox'')], db)) \<and>
     (environment (body req) \<noteq> Some ''SANDBOX'' \<longrightarrow>
        fst (webhook secret now req db) \<noteq>
          Json 200 [(''status'', ''skipped''), (''reason'', ''sandbox'')] \<and>
        webhook secret now req db =
          webhook secret now (req\<lparr>body := (body req)\<lparr>environment := None\<rparr>\<rparr>) db \<and>
        webhook secret now req db =
          (case appUserId_of (body req) of
             None \<Rightarrow>
               (Json 400 [(''status'', ''error''), (''reason'', ''missing app_user_id'')], db)
           | Some uid \<Rightarrow>
              (case resolveApp (or_default (product_id (body req)) []) (pathSlug_of (path req)) of
                 None \<Rightarrow> (Json 200 [(''status'', ''skipped''), (''reason'', ''unknown_app'')], db)
               | Some appSlug \<Rightarrow>
                  (case classifyFromEvent (etype (body req))
                          (or_default (cancel_reason (body req)) [])
                          (or_default (period_type (body req)) []) of
                     None \<Rightarrow>
                       (Json 200 [(''status'', ''skipped''),
                                  (''reason'', ''unhandled_event_type'')], db)
                   | Some newStatus \<Rightarrow>
                       record_event now appSlug uid (etype (body req))
                         (or_default (product_id (body req)) []) newStatus
                         (msToDateKey (purchasedAtMs_of (body req))) db))) \<and>
        (appUserId_of (body req) = Some uid \<and>
         resolveApp (or_default (product_id (body req)) []) (pathSlug_of (path req))
           = Some appSlug \<and>
         classifyFromEvent (etype (body req)) (or_default (cancel_reason (body req)) [])
           (or_default (period_type (body req)) []) = Some st \<and>
         (\<forall>p. doc_error db p = None) \<longrightarrow>
           fst (webhook secret now req db) =
             Json 200 [(''status'', ''ok''), (''app'', appSlug), (''classification'', st)] \<and>
           map_option status (users (snd (webhook secret now req db)) (appSlug, uid))
             = Some (Some st)))"
proof -
  assume m: "req_method req = ''POST''" and a: "authorized secret req"
  have w: "webhook secret now req db = handle_event now (path req) (body req) db"
    using m a by (rule webhook_handle_event)
  have "authorized secret (req\<lparr>body := (body req)\<lparr>environment := None\<rparr>\<rparr>)"
    using a by (simp add: authorized_def)
  with m have w': "webhook secret now (req\<lparr>body := (body req)\<lparr>environment := None\<rparr>\<rparr>) db =
      handle_event now (path req) ((body req)\<lparr>environment := None\<rparr>) db"
    by (simp add: webhook_handle_event)
  have 1: "environment (body req) = Some ''SANDBOX'' \<longrightarrow>
      handle_event now (path req) (body req) db =
        (Json 200 [(''status'', ''skipped''), (''reason'', ''sandbox'')], db)"
    using handle_event_sandbox [of "body req" now "path req" db] by blast
  have 2: "fst (handle_event now (path req) (body req) db) \<noteq>
        Json 200 [(''status'', ''skipped''), (''reason'', ''sandbox'')]"
    and 3: "handle_event now (path req) (body req) db =
        handle_event now (path req) ((body req)\<lparr>environment := None\<rparr>) db"
    and 4: "handle_event now (path req) (body req) db =
          (case appUserId_of (body req) of
             None \<Rightarrow>
               (Json 400 [(''status'', ''error''), (''reason'', ''missing app_user_id'')], db)
           | Some uid \<Rightarrow>
              (case resolveApp (or_default (product_id (body req)) []) (pathSlug_of (path req)) of
                 None \<Rightarrow> (Json 200 [(''status'', ''skipped''), (''reason'', ''unknown_app'')], db)
               | Some appSlug \<Rightarrow>
                  (case classifyFromEvent (etype (body req))
                          (or_default (cancel_reason (body req)) [])
                          (or_default (period_type (body req)) []) of
                     None \<Rightarrow>
                       (Json 200 [(''status'', ''skipped''),
                                  (''reason'', ''unhandled_event_type'')], db)
                   | Some newStatus \<Rightarrow>
                       record_event now appSlug uid (etype (body req))
                         (or_default (product_id (body req)) []) newStatus
                         (msToDateKey (purchasedAtMs_of (body req))) db)))"
    if e: "environment (body req) \<noteq> Some ''SANDBOX''"
  proof -
    show "fst (handle_event now (path req) (body req) db) \<noteq>
        Json 200 [(''status'', ''skipped''), (''reason'', ''sandbox'')]"
      using e by (rule handle_event_not_sandbox)
    show "handle_event now (path req) (body req) db =
        handle_event now (path req) ((body req)\<lparr>environment := None\<rparr>) db"
      using e by (rule handle_event_environment_irrelevant [symmetric])
    show "handle_event now (path req) (body req) db = (case appUserId_of (body req) of
             None \<Rightarrow>
               (Json 400 [(''status'', ''error''), (''reason'', ''missing app_user_id'')], db)
           | Some uid \<Rightarrow>
              (case resolveApp (or_default (product_id (body req)) []) (pathSlug_of (path req)) of
                 None \<Rightarrow> (Json 200 [(''status'', ''skipped''), (''reason'', ''unknown_app'')], db)
               | Some appSlug \<Rightarrow>
                  (case classifyFromEvent (etype (body req))
                          (or_default (cancel_reason (body req)) [])
                          (or_default (period_type (body req)) []) of
                     None \<Rightarrow>
                       (Json 200 [(''status'', ''skipped''),
                                  (''reason'', ''unhandled_event_type'')], db)
                   | Some newStatus \<Rightarrow>
                       record_event now appSlug uid (etype (body req))
                         (or_default (product_id (body req)) []) newStatus
                         (msToDateKey (purchasedAtMs_of (body req))) db)))"
      using e by (rule handle_event_pipeline)
  qed
  have 5: "fst (handle_event now (path req) (body req) db) =
             Json 200 [(''status'', ''ok''), (''app'', appSlug), (''classification'', st)] \<and>
           map_option status (users (snd (handle_event now (path req) (body req) db)) (appSlug, uid))
             = Some (Some st)"
    if e: "environment (body req) \<noteq> Some ''SANDBOX''"
      and u: "appUserId_of (body req) = Some uid"
      and r: "resolveApp (or_default (product_id (body req)) []) (pathSlug_of (path req))
           = Some appSlug"
      and c: "classifyFromEvent (etype (body req)) (or_default (cancel_reason (body req)) [])
           (or_default (period_type (body req)) []) = Some st"
      and d: "\<forall>p. doc_error db p = None"
  proof -
    have h: "handle_event now (path req) (body req) db =
        record_event now appSlug uid (etype (body req))
          (or_default (product_id (body req)) []) st
          (msToDateKey (purchasedAtMs_of (body req))) db"
      unfolding handle_event_pipeline [OF e] by (simp add: u r c)
    from d have d': "doc_error db (''apps/'' @ appSlug @ ''/users/'' @ uid) = None" by simp
    show ?thesis
      unfolding h users_record_event [OF d'] using record_event_accepted [OF d] by simp
  qed
  from 1 2 3 4 5 show ?thesis
    unfolding w w' by blast
qed

theorem sandbox_skip_exact_witness:
  "webhook [] 5
     \<lparr>req_method = ''POST'', authorization = None, path = ''/girlwalk'',
      body = \<lparr>etype = Some ''INITIAL_PURCHASE'', app_user_id = Some ''u1'',
              original_app_user_id = None, product_id = None,
              period_type = Some ''TRIAL'', cancel_reason = None,
              purchased_at_ms = None, environment = Some ''SANDBOX''\<rparr>\<rparr>
     empty_store
   = (Json 200 [(''status'', ''skipped''), (''reason'', ''sandbox'')], empty_store) \<and>
   fst (webhook [] 5
     \<lparr>req_method = ''POST'', authorization = None, path = ''/girlwalk'',
      body = \<lparr>etype = Some ''INITIAL_PURCHASE'', app_user_id = Some ''u1'',
              original_app_user_id = None, product_id = None,
              period_type = Some ''TRIAL'', cancel_reason = None,
              purchased_at_ms = None, environment = Some ''TEST''\<rparr>\<rparr>
     empty_store)
   = Json 200 [(''status'', ''ok''), (''app'', ''girlwalk''),
               (''classification'', ''Still in Trial'')] \<and>
   map_option status (users (snd (webhook [] 5
     \<lparr>req_method = ''POST'', authorization = None, path = ''/girlwalk'',
      body = \<lparr>etype = Some ''INITIAL_PURCHASE'', app_user_id = Some ''u1'',
              original_app_user_id = None, product_id = None,
              period_type = Some ''TRIAL'', cancel_reason = None,
              purchased_at_ms = None, environment = Some ''TEST''\<rparr>\<rparr>
     empty_store)) (''girlwalk'', ''u1''))
   = Some (Some ''Still in Trial'')"
proof -
  let ?ev = "\<lambda>e. \<lparr>etype = Some ''INITIAL_PURCHASE'', app_user_id = Some ''u1'',
              original_app_user_id = None, product_id = None,
              period_type = Some ''TRIAL'', cancel_reason = None,
              purchased_at_ms = None, environment = Some e\<rparr>"
  let ?req = "\<lambda>e. \<lparr>req_method = ''POST'', authorization = None, path = ''/girlwalk'', body = ?ev e\<rparr>"
  have m: "req_method (?req e) = ''POST''" for e by simp
  have a: "authorized [] (?req e)" for e by (simp add: authorized_def)
  have s: "environment (body (?req ''SANDBOX'')) = Some ''SANDBOX''"
    and t: "environment (body (?req ''TEST'')) \<noteq> Some ''SANDBOX''" by simp_all
  have u: "appUserId_of (body (?req ''TEST'')) = Some ''u1''"
    by (simp add: appUserId_of_def)
  have r: "resolveApp (or_default (product_id (body (?req ''TEST''))) [])
      (pathSlug_of (path (?req ''TEST''))) = Some ''girlwalk''"
    by (simp add: resolveApp_def or_default_def pathSlug_of_def APP_SLUGS_def Let_def)
  have c: "classifyFromEvent (etype (body (?req ''TEST'')))
      (or_default (cancel_reason (body (?req ''TEST''))) [])
      (or_default (period_type (body (?req ''TEST''))) []) = Some ''Still in Trial''"
    by (simp add: classifyFromEvent_def or_default_def)
  have d: "\<forall>p. doc_error empty_store p = None" by (simp add: empty_store_def)
  from sandbox_skip_exact [OF m a, of "''SANDBOX''" 5 empty_store] s
  have 1: "webhook [] 5 (?req ''SANDBOX'') empty_store =
      (Json 200 [(''status'', ''skipped''), (''reason'', ''sandbox'')], empty_store)"
    by blast
  from sandbox_skip_exact [OF m a, of "''TEST''" 5 empty_store "''u1''" "''girlwalk''"
      "''Still in Trial''"] t u r c d
  have 2: "fst (webhook [] 5 (?req ''TEST'') empty_store) =
      Json 200 [(''status'', ''ok''), (''app'', ''girlwalk''),
                (''classification'', ''Still in Trial'')] \<and>
    map_option status (users (snd (webhook [] 5 (?req ''TEST'') empty_store))
      (''girlwalk'', ''u1'')) = Some (Some ''Still in Trial'')"
    by blast
  from 1 2 show ?thesis by blast
qed

text \<open>
  The webhook never stores an empty \<open>trial_start_date\<close>: in a store it has built, a
  \<open>trial_start_date\<close> that is not null is a non-empty string.
\<close>

lemma record_event_dates_nonempty:
  assumes "\<forall>k u. users db k = Some u \<longrightarrow> trial_start_date u \<noteq> Some []"
    and "td \<noteq> Some []"
  shows "\<forall>k u. users (snd (record_event now appSlug uid et pid st td db)) k = Some u
           \<longrightarrow> trial_start_date u \<noteq> Some []"
proof (intro allI impI)
  fix k u
  assume k: "users (snd (record_event now appSlug uid et pid st td db)) k = Some u"
  show "trial_start_date u \<noteq> Some []"
  proof (cases "k = (appSlug, uid) \<and> doc_error db (''apps/'' @ appSlug @ ''/users/'' @ uid) = None")
    case True
    with k users_record_event [of db appSlug uid now et pid st td]
    have "trial_start_date u =
        (case users db (appSlug, uid) of
           None \<Rightarrow> td
         | Some u \<Rightarrow> if truthy_str (trial_start_date u) then trial_start_date u else td)"
      by auto
    with assms show ?thesis
      by (auto split: option.splits if_splits)
  next
    case False
    have "users db k = Some u"
    proof (cases "k = (appSlug, uid)")
      case True
      with False obtain msg where
        "doc_error db (''apps/'' @ appSlug @ ''/users/'' @ uid) = Some msg" by auto
      with k show ?thesis by (simp add: record_event_def)
    next
      case False
      with k show ?thesis by (simp add: users_record_event_other)
    qed
    with assms(1) show ?thesis by blast
  qed
qed

lemma webhook_dates_nonempty:
  assumes "\<forall>k u. users db k = Some u \<longrightarrow> trial_start_date u \<noteq> Some []"
  shows "\<forall>k u. users (snd (webhook secret now req db)) k = Some u
           \<longrightarrow> trial_start_date u \<noteq> Some []"
  using assms record_event_dates_nonempty [OF assms msToDateKey_nonempty]
  by (auto simp: webhook_def handle_event_def Let_def split: option.splits)

text \<open>
  Claim C8. For every processed event (answered 200 \<open>ok\<close>) of user \<open>uid\<close> of app
  \<open>appSlug\<close>, the \<open>trial_start_date\<close> written to the user record is the one the record
  already holds whenever that one is set (a non-empty string), whatever purchase timestamp
  the event carries; it is the cohort key derived from the event when no user record exists
  or the stored \<open>trial_start_date\<close> is absent.
\<close>

theorem trial_start_date_frozen:
  "fst (webhook secret now req db) =
     Json 200 [(''status'', ''ok''), (''app'', appSlug), (''classification'', st)] \<Longrightarrow>
   appUserId_of (body req) = Some uid \<Longrightarrow>
     (\<forall>u d. users db (appSlug, uid) = Some u \<and> trial_start_date u = Some d \<and> d \<noteq> [] \<longrightarrow>
        map_option trial_start_date (users (snd (webhook secret now req db)) (appSlug, uid))
          = Some (Some d)) \<and>
     (users db (appSlug, uid) = None \<longrightarrow>
        map_option trial_start_date (users (snd (webhook secret now req db)) (appSlug, uid))
          = Some (msToDateKey (purchasedAtMs_of (body req)))) \<and>
     (\<forall>u. users db (appSlug, uid) = Some u \<and> \<not> truthy_str (trial_start_date u) \<longrightarrow>
        map_option trial_start_date (users (snd (webhook secret now req db)) (appSlug, uid))
          = Some (msToDateKey (purchasedAtMs_of (body req))))"
proof -
  assume ok: "fst (webhook secret now req db) =
     Json 200 [(''status'', ''ok''), (''app'', appSlug), (''classification'', st)]"
    and uid: "appUserId_of (body req) = Some uid"
  have w: "webhook secret now req db =
      record_event now appSlug uid (etype (body req)) (or_default (product_id (body req)) []) st
        (msToDateKey (purchasedAtMs_of (body req))) db"
    using ok uid by (rule webhook_ok)
  have d: "doc_error db (''apps/'' @ appSlug @ ''/users/'' @ uid) = None"
    using ok unfolding w by (rule record_event_ok)
  show ?thesis
    unfolding w users_record_event [OF d] by auto
qed

theorem trial_start_date_frozen_witness:
  "map_option trial_start_date
     (users (snd (webhook [] 9
        \<lparr>req_method = ''POST'', authorization = None, path = ''/girlwalk'',
         body = \<lparr>etype = Some ''RENEWAL'', app_user_id = Some ''u1'',
                 original_app_user_id = None, product_id = None,
                 period_type = None, cancel_reason = None,
                 purchased_at_ms = Some 1709164800000, environment = None\<rparr>\<rparr>
        (empty_store\<lparr>users := [(''girlwalk'', ''u1'') \<mapsto>
           \<lparr>status = Some ''Still in Trial'', product = Some [],
            trial_start_date = Some ''2023-11-14'', last_event = Some ''INITIAL_PURCHASE'',
            updated_at = Some 3\<rparr>]\<rparr>)))
      (''girlwalk'', ''u1''))
   = Some (Some ''2023-11-14'')"
proof -
  let ?req = "\<lparr>req_method = ''POST'', authorization = None, path = ''/girlwalk'',
         body = \<lparr>etype = Some ''RENEWAL'', app_user_id = Some ''u1'',
                 original_app_user_id = None, product_id = None,
                 period_type = None, cancel_reason = None,
                 purchased_at_ms = Some 1709164800000, environment = None\<rparr>\<rparr>"
  let ?u = "\<lparr>status = Some ''Still in Trial'', product = Some [],
            trial_start_date = Some ''2023-11-14'', last_event = Some ''INITIAL_PURCHASE'',
            updated_at = Some 3\<rparr>"
  let ?db = "empty_store\<lparr>users := [(''girlwalk'', ''u1'') \<mapsto> ?u]\<rparr>"
  have ok: "fst (webhook [] 9 ?req ?db) =
     Json 200 [(''status'', ''ok''), (''app'', ''girlwalk''), (''classification'', ''Converted'')]"
    by (simp add: webhook_def authorized_def handle_event_def appUserId_of_def or_default_def
        resolveApp_def pathSlug_of_def APP_SLUGS_def classifyFromEvent_def record_event_def empty_store_def
        Let_def)
  have uid: "appUserId_of (body ?req) = Some ''u1''"
    by (simp add: appUserId_of_def)
  have u: "users ?db (''girlwalk'', ''u1'') = Some ?u \<and>
      trial_start_date ?u = Some ''2023-11-14'' \<and> ''2023-11-14'' \<noteq> []"
    by simp
  from trial_start_date_frozen [OF ok uid] u show ?thesis
    by blast
qed

section \<open>The handler on concrete requests\<close>

text \<open>
  The end-to-end scenario of the specification: a first INITIAL_PURCHASE with period type
  TRIAL puts the user in \<open>Still in Trial\<close> and the cohort of its date at
  \<open>total_trials = 1\<close>, \<open>in_trial = 1\<close>; a later RENEWAL of the same user moves it to
  \<open>converted\<close> in the same cohort, whatever its own purchase date. A RENEWAL of a user
  seen for the first time is counted in \<open>converted\<close> and not in \<open>total_trials\<close>.
\<close>

lemma key_2023_11_14: "msToDateKey (Some 1700000000000) = Some ''2023-11-14''"
proof -
  have "YearFromTime 1700000000000 = 2023" "MonthFromTime 1700000000000 = 10"
    "DateFromTime 1700000000000 = 14"
    by (simp_all add: date_eval Let_def)
  then show ?thesis
    by (simp add: msToDateKey_def valid_time_def String_of_int_def padStart0_def
        digits.simps Let_def)
qed

lemmas webhook_eval =
  webhook_def authorized_def handle_event_def appUserId_of_def purchasedAtMs_of_def
  or_default_def resolveApp_def pathSlug_of_def APP_SLUGS_def classifyFromEvent_def
  record_event_def cohort_transaction_def cohort_update_f64_defs f64_int_exact zeroed_def

lemma webhook_first_renewal:
  "cohorts (snd (webhook [] 0
     \<lparr>req_method = ''POST'', authorization = None, path = ''/girlwalk'',
      body = \<lparr>etype = Some ''RENEWAL'', app_user_id = Some ''u7'',
              original_app_user_id = None, product_id = None,
              period_type = Some ''NORMAL'', cancel_reason = None,
              purchased_at_ms = Some 1700000000000, environment = None\<rparr>\<rparr>
     empty_store)) (''girlwalk'', ''2023-11-14'')
   = Some \<lparr>period = ''2023-11-14'', total_trials = 0, in_trial = 0, converted = 1,
            cancelled = 0, billing_issue = 0,
            conversion_rate = 1, cancel_rate = 0, billing_rate = 0\<rparr>"
  by (simp add: webhook_eval empty_store_def key_2023_11_14 rate_of_small Let_def)


lemma scenario_initial_purchase:
  "webhook [] 1
     \<lparr>req_method = ''POST'', authorization = None, path = ''/girlwalk'',
      body = \<lparr>etype = Some ''INITIAL_PURCHASE'', app_user_id = Some ''u1'',
              original_app_user_id = None, product_id = None,
              period_type = Some ''TRIAL'', cancel_reason = None,
              purchased_at_ms = Some 1700000000000, environment = None\<rparr>\<rparr>
     empty_store
   = (Json 200 [(''status'', ''ok''), (''app'', ''girlwalk''), (''classification'', ''Still in Trial'')],
      \<lparr>doc_error = (\<lambda>p. None),
       users = [(''girlwalk'', ''u1'') \<mapsto>
          \<lparr>status = Some ''Still in Trial'', product = Some [],
           trial_start_date = Some ''2023-11-14'', last_event = Some ''INITIAL_PURCHASE'',
           updated_at = Some 1\<rparr>],
       cohorts = [(''girlwalk'', ''2023-11-14'') \<mapsto>
          \<lparr>period = ''2023-11-14'', total_trials = 1, in_trial = 1, converted = 0,
           cancelled = 0, billing_issue = 0,
           conversion_rate = 0, cancel_rate = 0, billing_rate = 0\<rparr>]\<rparr>)"
  by (simp add: webhook_eval empty_store_def key_2023_11_14 rate_of_small Let_def)

lemma scenario_renewal:
  "webhook [] 2
     \<lparr>req_method = ''POST'', authorization = None, path = ''/girlwalk'',
      body = \<lparr>etype = Some ''RENEWAL'', app_user_id = Some ''u1'',
              original_app_user_id = None, product_id = None,
              period_type = Some ''NORMAL'', cancel_reason = None,
              purchased_at_ms = Some 1709164800000, environment = None\<rparr>\<rparr>
      \<lparr>doc_error = (\<lambda>p. None),
       users = [(''girlwalk'', ''u1'') \<mapsto>
          \<lparr>status = Some ''Still in Trial'', product = Some [],
           trial_start_date = Some ''2023-11-14'', last_event = Some ''INITIAL_PURCHASE'',
           updated_at = Some 1\<rparr>],
       cohorts = [(''girlwalk'', ''2023-11-14'') \<mapsto>
          \<lparr>period = ''2023-11-14'', total_trials = 1, in_trial = 1, converted = 0,
           cancelled = 0, billing_issue = 0,
           conversion_rate = 0, cancel_rate = 0, billing_rate = 0\<rparr>]\<rparr>
   = (Json 200 [(''status'', ''ok''), (''app'', ''girlwalk''), (''classification'', ''Converted'')],
      \<lparr>doc_error = (\<lambda>p. None),
       users = [(''girlwalk'', ''u1'') \<mapsto>
          \<lparr>status = Some ''Converted'', product = Some [],
           trial_start_date = Some ''2023-11-14'', last_event = Some ''RENEWAL'',
           updated_at = Some 2\<rparr>],
       cohorts = [(''girlwalk'', ''2023-11-14'') \<mapsto>
          \<lparr>period = ''2023-11-14'', total_trials = 1, in_trial = 0, converted = 1,
           cancelled = 0, billing_issue = 0,
           conversion_rate = 1, cancel_rate = 0, billing_rate = 0\<rparr>]\<rparr>)"
  by (simp add: webhook_eval rate_of_small Let_def)

lemma scenario_refused_path:
  "webhook [] 3
     \<lparr>req_method = ''POST'', authorization = None, path = ''/girlwalk'',
      body = \<lparr>etype = Some ''RENEWAL'', app_user_id = Some ''a//b'',
              original_app_user_id = None, product_id = None,
              period_type = Some ''NORMAL'', cancel_reason = None,
              purchased_at_ms = Some 1700000000000, environment = None\<rparr>\<rparr>
     (empty_store\<lparr>doc_error :=
        (\<lambda>p. if p = ''apps/girlwalk/users/a//b'' then Some ''invalid path'' else None)\<rparr>)
   = (Json 500 [(''status'', ''error''), (''message'', ''invalid path'')],
      empty_store\<lparr>doc_error :=
        (\<lambda>p. if p = ''apps/girlwalk/users/a//b'' then Some ''invalid path'' else None)\<rparr>)"
  by (simp add: webhook_def authorized_def handle_event_def appUserId_of_def
      or_default_def resolveApp_def pathSlug_of_def APP_SLUGS_def classifyFromEvent_def
      record_event_def empty_store_def Let_def)

lemma resolveApp_kelvin_sign:
  "resolveApp [CHR ''g'', CHR ''i'', CHR ''r'', CHR ''l'', CHR ''w'', CHR ''a'', CHR ''l'',
               CHR 0xE2, CHR 0x84, CHR 0xAA] None = Some ''girlwalk''"
  by (simp add: resolveApp_def APP_SLUGS_def lower_char_def)

end
